theory Spec2Isabelle
  imports Complex_Main "HOL-Library.AList"
begin

section \<open>Python values shared by the modules\<close>

text \<open>
  Exceptions are values. \<open>OSError\<close> stands for the class with its subclasses, which is what
  an \<^verbatim>\<open>except OSError\<close> clause catches. \<open>AllocationError\<close> and \<open>NotFoundError\<close> are the
  store's failures. A Python \<^verbatim>\<open>str\<close> is represented by the bytes of its UTF-8 encoding, so
  that \<^verbatim>\<open>str.encode\<close> keeps the characters as they are.
\<close>

datatype py_error =
    KeyError string
  | TypeError string
  | IndexError
  | ValueError
  | ZeroDivisionError
  | OSError
  | AllocationError
  | NotFoundError

section \<open>file\_io/lammps\_flux\_files.py\<close>

text \<open>
  The flux file after its header is a list of lines, one configuration per line (the reader
  is called with one line per configuration). A chunk records the position of the file
  cursor at which it was read and the configurations it holds.
\<close>

record 'l flux_chunk =
  first_config :: nat
  configs :: "'l list"

text \<open>
  Modelled from the spec: \<^verbatim>\<open>tabular_text_files.read_process_n_configurations\<close> is not among
  the sources. It reads the next \<open>n\<close> configurations at the cursor of the open file into one
  chunk and leaves the cursor behind them; a file that ends early gives what is left.
\<close>

definition read_process_n_configurations ::
  "'l list \<Rightarrow> nat \<Rightarrow> int \<Rightarrow> 'l flux_chunk \<times> nat" where
  "read_process_n_configurations file pos n =
     (let got = take (nat n) (drop pos file)
      in (\<lparr>first_config = pos, configs = got\<rparr>, pos + length got))"

text \<open>The loop \<^verbatim>\<open>for _ in range(n_batches): yield read_process_n_configurations(...)\<close>.\<close>

fun read_batches :: "'l list \<Rightarrow> nat \<Rightarrow> int \<Rightarrow> nat \<Rightarrow> 'l flux_chunk list \<times> nat" where
  "read_batches file 0 batch_size pos = ([], pos)"
| "read_batches file (Suc k) batch_size pos =
     (let (c, pos') = read_process_n_configurations file pos batch_size;
          (cs, pos'') = read_batches file k batch_size pos'
      in (c # cs, pos''))"

text \<open>
  \<^verbatim>\<open>LAMMPSFluxFile.get_configurations_generator\<close>: the chunks the generator yields, in
  order. \<^verbatim>\<open>divmod\<close> raises for a zero divisor and rounds towards minus infinity, as
  \<open>div\<close> and \<open>mod\<close> on \<open>int\<close> do; \<^verbatim>\<open>range\<close> of a negative number is empty.
\<close>

definition get_configurations_generator ::
  "int \<Rightarrow> int \<Rightarrow> 'l list \<Rightarrow> py_error + 'l flux_chunk list" where
  "get_configurations_generator n_configs batch_size file =
     (if batch_size = 0 then Inl ZeroDivisionError
      else
        let n_batches = n_configs div batch_size;
            n_configs_remainder = n_configs mod batch_size;
            (chunks, pos) = read_batches file (nat n_batches) batch_size 0
        in Inr (chunks @
                (if n_configs_remainder > 0
                 then [fst (read_process_n_configurations file pos n_configs_remainder)]
                 else [])))"

section \<open>Strings, bytes and dictionaries\<close>

text \<open>
  \<^verbatim>\<open>os.path.join(a, b)\<close> of the standard library, on a POSIX system: an absolute second
  component replaces the first, and no separator is added after an empty first component
  or one that already ends in a slash.
\<close>

definition os_path_join :: "string \<Rightarrow> string \<Rightarrow> string" where
  "os_path_join a b =
     (if b \<noteq> [] \<and> hd b = CHR ''/'' then b
      else if a = [] \<or> last a = CHR ''/'' then a @ b
      else a @ ''/'' @ b)"

text \<open>
  Modelled from the spec: \<^verbatim>\<open>mdsuite.utils.meta_functions.join_path\<close> is not among the
  sources. A dataset path is the string \<^verbatim>\<open><species>/<property>\<close>.
\<close>

definition join_path :: "string \<Rightarrow> string \<Rightarrow> string" where
  "join_path a b = a @ ''/'' @ b"

text \<open>\<^verbatim>\<open>str.encode\<close>: the UTF-8 bytes of a string, which is how strings are represented here.\<close>

definition str_encode :: "string \<Rightarrow> string" where
  "str_encode s = s"

text \<open>\<^verbatim>\<open>s.split(sep)\<close> for a separator of one character; the result is never empty.\<close>

fun py_split :: "char \<Rightarrow> string \<Rightarrow> string list" where
  "py_split sep [] = [[]]"
| "py_split sep (c # cs) =
     (if c = sep then [] # py_split sep cs
      else (case py_split sep cs of
              w # ws \<Rightarrow> (c # w) # ws
            | [] \<Rightarrow> [[c]]))"

text \<open>\<^verbatim>\<open>s.strip(c)\<close> for one character: every leading and trailing occurrence goes.\<close>

definition py_strip :: "char \<Rightarrow> string \<Rightarrow> string" where
  "py_strip c s = rev (dropWhile (\<lambda>x. x = c) (rev (dropWhile (\<lambda>x. x = c) s)))"

text \<open>
  \<^verbatim>\<open>str(key)\<close> of a \<^verbatim>\<open>bytes\<close> object is its \<^verbatim>\<open>repr\<close>: the letter b, a quote, the
  bytes with the quote and the backslash escaped, tab, newline and carriage return as
  \<^verbatim>\<open>\t \n \r\<close>, every other byte outside the printable ASCII range as \<^verbatim>\<open>\xNN\<close>, and the
  closing quote. The quote is the single quote, unless the bytes hold a single quote and
  no double quote.
\<close>

definition hex_digit :: "nat \<Rightarrow> char" where
  "hex_digit n = ''0123456789abcdef'' ! (n mod 16)"

definition repr_byte :: "char \<Rightarrow> char \<Rightarrow> string" where
  "repr_byte quote c =
     (if c = quote \<or> c = CHR 0x5C then [CHR 0x5C, c]
      else if c = CHR 0x09 then [CHR 0x5C, CHR ''t'']
      else if c = CHR 0x0A then [CHR 0x5C, CHR ''n'']
      else if c = CHR 0x0D then [CHR 0x5C, CHR ''r'']
      else if (of_char c :: nat) < 32 \<or> (of_char c :: nat) \<ge> 127
        then [CHR 0x5C, CHR ''x'', hex_digit (of_char c div 16), hex_digit (of_char c)]
      else [c])"

definition bytes_repr :: "string \<Rightarrow> string" where
  "bytes_repr bs =
     (let quote = (if CHR 0x27 \<in> set bs \<and> CHR 0x22 \<notin> set bs then CHR 0x22 else CHR 0x27)
      in CHR ''b'' # quote # concat (map (repr_byte quote) bs) @ [quote])"

text \<open>
  A dictionary is an association list in insertion order; \<^verbatim>\<open>d[k] = v\<close> is
  \<^const>\<open>AList.update\<close>, which overwrites in place or appends.
\<close>

section \<open>Arrays\<close>

text \<open>
  An array (\<^verbatim>\<open>numpy\<close> array, tensor or on-disk dataset) is its shape and its elements as a
  function of the index. Only the elements at indices inside the shape are meaningful.
\<close>

datatype 'v ndarray = NDArray (np_shape: "nat list") (elem: "nat list \<Rightarrow> 'v")

text \<open>\<^verbatim>\<open>data[np.newaxis, :, :]\<close>: a new leading axis of size 1.\<close>

definition np_newaxis :: "'v ndarray \<Rightarrow> 'v ndarray" where
  "np_newaxis a = NDArray (1 # np_shape a) (\<lambda>idx. elem a (tl idx))"

fun swap01 :: "'a list \<Rightarrow> 'a list" where
  "swap01 (a # b # r) = b # a # r"
| "swap01 xs = xs"

text \<open>
  \<^verbatim>\<open>np.swapaxes(data, 0, 1)\<close>, which the source reaches only with arrays of rank two or more
  (it has read \<^verbatim>\<open>np.shape(data)[1]\<close> before).
\<close>

definition np_swapaxes :: "'v ndarray \<Rightarrow> 'v ndarray" where
  "np_swapaxes a = NDArray (swap01 (np_shape a)) (\<lambda>idx. elem a (swap01 idx))"

section \<open>The data model of the simulation database\<close>

text \<open>
  \<^verbatim>\<open>PropertyInfo\<close>, \<^verbatim>\<open>SpeciesInfo\<close> and \<^verbatim>\<open>TrajectoryChunkData\<close> of
  \<^verbatim>\<open>mdsuite.database.simulation_database\<close>, with the fields the transformation uses. Both
  info classes have a field \<^verbatim>\<open>name\<close>; the species' one is \<open>sp_name\<close> here.
\<close>

record property_info =
  name :: string
  n_dims :: nat

record species_info =
  sp_name :: string
  n_particles :: nat
  properties :: "property_info list"

text \<open>
  Modelled from the spec: the class \<^verbatim>\<open>TrajectoryChunkData\<close> is not among the sources. A
  chunk is a buffer for \<open>chunk_size\<close> configurations of the species it is built for;
  \<^verbatim>\<open>add_data(data, config_idx, species_name, property_name)\<close> inserts a property's values at
  a time offset within the chunk. The values come with the time in the first axis, as the
  caller's comment says. The chunk keeps each insertion as it was made.
\<close>

record 'v chunk =
  chunk_size :: nat
  species_list :: "species_info list"
  entries :: "((string \<times> string) \<times> nat \<times> 'v ndarray) list"

definition TrajectoryChunkData :: "nat \<Rightarrow> species_info list \<Rightarrow> 'v chunk" where
  "TrajectoryChunkData n sl = \<lparr>chunk_size = n, species_list = sl, entries = []\<rparr>"

definition chunk_add_data ::
  "'v ndarray \<Rightarrow> nat \<Rightarrow> string \<Rightarrow> string \<Rightarrow> 'v chunk \<Rightarrow> 'v chunk" where
  "chunk_add_data data config_idx species_name property_name c =
     c\<lparr>entries := entries c @ [((species_name, property_name), config_idx, data)]\<rparr>"

section \<open>The state of a run\<close>

text \<open>
  The calls a transformation makes on its collaborators, in order: the store's mutating
  operations (every attempt, also one that fails), \<^verbatim>\<open>time.sleep\<close>, the experiment's
  \<^verbatim>\<open>perform_transformation\<close>, and each entry into \<^verbatim>\<open>_resolve_dependencies\<close>.
\<close>

datatype 'v call =
    AddDataset string "nat \<times> nat \<times> nat"
  | ResizeDataset string "nat \<times> int \<times> nat"
  | AddData "'v chunk" int
  | Sleep real
  | ResolveDependencies string
  | PerformTransformation string

text \<open>
  The mutable attributes of the transformation object (\<open>offset\<close>, \<open>batch_size\<close>,
  \<open>n_batches\<close>, \<open>remainder\<close>; the last three are set by \<^verbatim>\<open>_prepare_monitors\<close> before they
  are read) together with the world it acts on: the datasets of the store by path, what
  the coming attempts to write will meet (\<open>None\<close>: the write goes through; \<open>Some e\<close>: it
  raises \<open>e\<close>; an empty list: every write goes through), the calls made so far and the
  messages logged.
\<close>

record 'v state =
  offset :: int
  batch_size :: int
  n_batches :: int
  remainder :: int
  database :: "string \<Rightarrow> 'v ndarray option"
  io_faults :: "py_error option list"
  calls :: "'v call list"
  logged :: "string list"

text \<open>The attributes of the transformation object that a run only reads.\<close>

record transformation =
  input_properties :: "property_info list"
  output_property :: property_info
  dependency :: "string option"

text \<open>
  The experiment: its species by name (a dictionary, in insertion order) and its number of
  configurations.
\<close>

record Experiment =
  species :: "(string \<times> species_info) list"
  number_of_configurations :: nat

type_synonym ('v, 'a) result = "(py_error + 'a) \<times> 'v state"

section \<open>The store\<close>

text \<open>
  Modelled from the spec: the class \<^verbatim>\<open>Database\<close> is not among the sources. The spec gives
  its contract: datasets of shape \<open>[n_particles, n_configurations, n_dims]\<close> by path;
  \<^verbatim>\<open>check_existence\<close> is true iff a dataset exists at the path; \<^verbatim>\<open>add_dataset\<close> creates a
  zero-initialised dataset and fails with \<open>AllocationError\<close> if the path exists;
  \<^verbatim>\<open>resize_dataset\<close> grows the configuration axis by the given amount, keeps the contents
  and fails with \<open>NotFoundError\<close> if the path is absent; \<^verbatim>\<open>get_data_size\<close> returns the
  shape; \<^verbatim>\<open>add_data\<close> writes the chunk's arrays starting at a configuration index. The
  dictionaries passed to \<^verbatim>\<open>add_dataset\<close> and \<^verbatim>\<open>resize_dataset\<close> have one entry in this
  module, which is the argument here. A shape that does not fit is a \<open>ValueError\<close>.
\<close>

definition check_existence :: "'v state \<Rightarrow> string \<Rightarrow> bool" where
  "check_existence st path = (database st path \<noteq> None)"

definition add_dataset ::
  "string \<times> (nat \<times> nat \<times> nat) \<Rightarrow> 'v::zero state \<Rightarrow> ('v, unit) result" where
  "add_dataset structure st =
     (case structure of (path, (p, n, d)) \<Rightarrow>
        let st' = st\<lparr>calls := calls st @ [AddDataset path (p, n, d)]\<rparr>
        in if check_existence st path then (Inl AllocationError, st')
           else (Inr (),
                 st'\<lparr>database := (database st)(path \<mapsto> NDArray [p, n, d] (\<lambda>idx. 0))\<rparr>))"

definition resize_dataset ::
  "string \<times> (nat \<times> int \<times> nat) \<Rightarrow> 'v::zero state \<Rightarrow> ('v, unit) result" where
  "resize_dataset structure st =
     (case structure of (path, (p, additional, d)) \<Rightarrow>
        let st' = st\<lparr>calls := calls st @ [ResizeDataset path (p, additional, d)]\<rparr>
        in case database st path of
             None \<Rightarrow> (Inl NotFoundError, st')
           | Some ds \<Rightarrow>
               (case np_shape ds of
                  [p0, n0, d0] \<Rightarrow>
                    if int n0 + additional < 0 then (Inl ValueError, st')
                    else (Inr (),
                          st'\<lparr>database := (database st)(path \<mapsto>
                                NDArray [p0, nat (int n0 + additional), d0]
                                  (\<lambda>idx. if length idx = 3 \<and> idx ! 1 < n0
                                         then elem ds idx else 0))\<rparr>)
                | _ \<Rightarrow> (Inl ValueError, st')))"

definition get_data_size :: "'v state \<Rightarrow> string \<Rightarrow> py_error + nat list" where
  "get_data_size st path =
     (case database st path of
        None \<Rightarrow> Inl NotFoundError
      | Some ds \<Rightarrow> Inr (np_shape ds))"

text \<open>
  One array of a chunk goes into the dataset of its species and property, at the
  configurations from \<open>start_idx\<close> plus its offset within the chunk. The array has the time
  in its first axis and must have the dataset's numbers of particles and dimensions.
\<close>

definition write_entry ::
  "int \<Rightarrow> ((string \<times> string) \<times> nat \<times> 'v ndarray)
     \<Rightarrow> (string \<Rightarrow> 'v ndarray option) \<Rightarrow> py_error + (string \<Rightarrow> 'v ndarray option)" where
  "write_entry start_idx entry db =
     (case entry of ((sp, prop), config_idx, data) \<Rightarrow>
        (case db (join_path sp prop) of
           None \<Rightarrow> Inl NotFoundError
         | Some ds \<Rightarrow>
             (case (np_shape ds, np_shape data) of
                ([p, n, d], [b, p', d']) \<Rightarrow>
                  if p' = p \<and> d' = d \<and> 0 \<le> start_idx
                     \<and> nat start_idx + config_idx + b \<le> n
                  then
                    let first = nat start_idx + config_idx
                    in Inr (db(join_path sp prop \<mapsto>
                         NDArray [p, n, d]
                           (\<lambda>idx. case idx of
                                [i, c, k] \<Rightarrow>
                                  if first \<le> c \<and> c < first + b
                                  then elem data [c - first, i, k]
                                  else elem ds idx
                              | _ \<Rightarrow> elem ds idx)))
                  else Inl ValueError
              | _ \<Rightarrow> Inl ValueError)))"

fun write_entries ::
  "int \<Rightarrow> ((string \<times> string) \<times> nat \<times> 'v ndarray) list
     \<Rightarrow> (string \<Rightarrow> 'v ndarray option) \<Rightarrow> py_error + (string \<Rightarrow> 'v ndarray option)" where
  "write_entries start_idx [] db = Inr db"
| "write_entries start_idx (e # es) db =
     (case write_entry start_idx e db of
        Inl err \<Rightarrow> Inl err
      | Inr db' \<Rightarrow> write_entries start_idx es db')"

definition add_data :: "'v chunk \<Rightarrow> int \<Rightarrow> 'v state \<Rightarrow> ('v, unit) result" where
  "add_data c start_idx st =
     (let st' = st\<lparr>calls := calls st @ [AddData c start_idx],
                   io_faults := tl (io_faults st)\<rparr>
      in case io_faults st of
           Some err # _ \<Rightarrow> (Inl err, st')
         | _ \<Rightarrow>
             (case write_entries start_idx (entries c) (database st) of
                Inl err \<Rightarrow> (Inl err, st')
              | Inr db' \<Rightarrow> (Inr (), st'\<lparr>database := db'\<rparr>)))"

text \<open>
  The bulk read of an index range of one dataset, as an array of shape
  \<open>[n_particles, range_length, n_dims]\<close>.
\<close>

definition read_range :: "'v state \<Rightarrow> string \<Rightarrow> int \<Rightarrow> int \<Rightarrow> py_error + 'v ndarray" where
  "read_range st path start len =
     (case database st path of
        None \<Rightarrow> Inl NotFoundError
      | Some ds \<Rightarrow>
          (case np_shape ds of
             [p, n, d] \<Rightarrow>
               Inr (NDArray [p, nat len, d]
                      (\<lambda>idx. case idx of
                           [i, t, k] \<Rightarrow> elem ds [i, nat start + t, k]
                         | _ \<Rightarrow> elem ds idx))
           | _ \<Rightarrow> Inl ValueError))"

section \<open>transformations/transformations.py\<close>

text \<open>The module's table \<^verbatim>\<open>switcher_transformations\<close>.\<close>

definition switcher_transformations :: "(string \<times> string) list" where
  "switcher_transformations =
     [(''Translational_Dipole_Moment'', ''TranslationalDipoleMoment''),
      (''Ionic_Current'', ''IonicCurrent''),
      (''Integrated_Heat_Current'', ''IntegratedHeatCurrent''),
      (''Thermal_Flux'', ''ThermalFlux''),
      (''Momentum_Flux'', ''MomentumFlux''),
      (''Kinaci_Heat_Current'', ''KinaciIntegratedHeatCurrent'')]"

text \<open>\<^verbatim>\<open>{**a, **b}\<close>: the entries of \<open>a\<close>, updated with those of \<open>b\<close> in order.\<close>

definition dict_merge :: "('k \<times> 'a) list \<Rightarrow> ('k \<times> 'a) list \<Rightarrow> ('k \<times> 'a) list" where
  "dict_merge a b = fold (\<lambda>(k, v). AList.update k v) b a"

definition run_dataset_check :: "'v state \<Rightarrow> string \<Rightarrow> bool" where
  "run_dataset_check st path = check_existence st path"

definition unwrap_choice :: "'v state \<Rightarrow> string" where
  "unwrap_choice st =
     (let indices = check_existence st ''Box_Images''
      in if indices then ''UnwrapViaIndices'' else ''UnwrapCoordinates'')"

text \<open>
  The inner function \<^verbatim>\<open>_string_to_function\<close> of \<^verbatim>\<open>_resolve_dependencies\<close>. The entry for
  \<^verbatim>\<open>"Unwrapped_Positions"\<close> is computed whenever the function is called.
\<close>

definition string_to_function :: "'v state \<Rightarrow> string \<Rightarrow> py_error + string" where
  "string_to_function st argument =
     (let switcher_unwrapping = [(''Unwrapped_Positions'', unwrap_choice st)];
          switcher = dict_merge switcher_unwrapping switcher_transformations
      in case map_of switcher argument of
           Some t \<Rightarrow> Inr t
         | None \<Rightarrow> Inl (KeyError ''Data not in database and can not be generated.''))"

text \<open>
  \<^verbatim>\<open>_resolve_dependencies\<close>. The experiment's \<^verbatim>\<open>perform_transformation\<close> is not among the
  sources and is the parameter \<open>perform\<close>: it runs the named transformation on the state.
\<close>

definition resolve_dependencies ::
  "(string \<Rightarrow> 'v state \<Rightarrow> ('v, unit) result) \<Rightarrow> string \<Rightarrow> 'v state \<Rightarrow> ('v, unit) result" where
  "resolve_dependencies perform dep st =
     (let st1 = st\<lparr>calls := calls st @ [ResolveDependencies dep]\<rparr>
      in case string_to_function st1 dep of
           Inl err \<Rightarrow> (Inl err, st1)
         | Inr t \<Rightarrow>
             perform t (st1\<lparr>calls := calls st1 @ [PerformTransformation t]\<rparr>))"

text \<open>
  \<^verbatim>\<open>_run_dependency_check\<close>. The attribute \<^verbatim>\<open>dependency\<close> is \<^verbatim>\<open>None\<close> until a subclass sets
  it; joining a species name with \<^verbatim>\<open>None\<close> raises a \<^verbatim>\<open>TypeError\<close>.
\<close>

definition run_dependency_check ::
  "transformation \<Rightarrow> Experiment \<Rightarrow> (string \<Rightarrow> 'v state \<Rightarrow> ('v, unit) result)
     \<Rightarrow> 'v state \<Rightarrow> ('v, unit) result" where
  "run_dependency_check self expt perform st =
     (case dependency self of
        None \<Rightarrow>
          if species expt = [] then (Inr (), st)
          else (Inl (TypeError ''join_path''), st)
      | Some dep \<Rightarrow>
          let path_list = map (\<lambda>sp. join_path sp dep) (map fst (species expt));
              truth_array = map (check_existence st) path_list
          in if list_all (\<lambda>b. b) truth_array then (Inr (), st)
             else resolve_dependencies perform dep st)"

text \<open>
  The value of the dictionary \<^verbatim>\<open>data_structure\<close>: \<^verbatim>\<open>indices\<close> is a slice (which has no
  length) or a list of particle indices; a key may be absent.
\<close>

datatype index_spec = slice_all | index_list "nat list"

record ds_entry =
  indices :: "index_spec option"
  columns :: "nat list option"
  ds_length :: "nat option"

text \<open>
  The first part of \<^verbatim>\<open>_save_output\<close>, which turns the data into a trajectory chunk. The
  checks fail in the order of the source: the first item of the dictionary, the last two
  components of its path, the number of particles, the columns, the second axis of the
  data.
\<close>

definition save_output_chunk ::
  "'v ndarray \<Rightarrow> (string \<times> ds_entry) list \<Rightarrow> py_error + 'v chunk" where
  "save_output_chunk data data_structure =
     (case data_structure of
        [] \<Rightarrow> Inl IndexError
      | (key, val) # _ \<Rightarrow>
          let path = py_split (CHR ''/'') key;
              prop_name = last path
          in if length path < 2 then Inl IndexError
             else
               let sp_name = path ! (length path - 2);
                   n_particles_r =
                     (case ds_length val of
                        Some n \<Rightarrow> Inr n
                      | None \<Rightarrow>
                          (case indices val of
                             Some (index_list l) \<Rightarrow> Inr (length l)
                           | _ \<Rightarrow> Inl (TypeError ''Could not determine number of particles'')))
               in case n_particles_r of
                    Inl err \<Rightarrow> Inl err
                  | Inr n_part \<Rightarrow>
                      let data' = (if length (np_shape data) = 2 then np_newaxis data else data)
                      in case columns val of
                           None \<Rightarrow> Inl (KeyError ''columns'')
                         | Some cols \<Rightarrow>
                             let prop = \<lparr>name = prop_name, n_dims = length cols\<rparr>;
                                 sl = [\<lparr>sp_name = sp_name, n_particles = n_part,
                                        properties = [prop]\<rparr>]
                             in if length (np_shape data') < 2 then Inl IndexError
                                else
                                  Inr (chunk_add_data (np_swapaxes data') 0 sp_name prop_name
                                         (TrajectoryChunkData (np_shape data' ! 1) sl)))"

text \<open>
  \<^verbatim>\<open>_save_output\<close>: the chunk is written at \<open>index + offset\<close>; an \<open>OSError\<close> of the first
  attempt is caught, the process sleeps for half a second and writes again, outside any
  handler.
\<close>

definition save_output ::
  "'v ndarray \<Rightarrow> int \<Rightarrow> (string \<times> ds_entry) list \<Rightarrow> 'v state \<Rightarrow> ('v, unit) result" where
  "save_output data index data_structure st =
     (case save_output_chunk data data_structure of
        Inl err \<Rightarrow> (Inl err, st)
      | Inr c \<Rightarrow>
          (case add_data c (index + offset st) st of
             (Inl OSError, st1) \<Rightarrow>
               (let st2 = st1\<lparr>calls := calls st1 @ [Sleep 0.5]\<rparr>
                in add_data c (index + offset st2) st2)
           | r \<Rightarrow> r))"

text \<open>
  Modelled from the spec: the class \<^verbatim>\<open>MemoryManager\<close> is not among the sources. The batch
  size is the memory budget over the scaled cost of one configuration, rounded down
  (\<open>capacity\<close>, a parameter: it depends on the memory of the machine) and clamped to at
  least 1; the number of batches and the remainder are \<^verbatim>\<open>divmod\<close> of the configurations
  left after the offset.
\<close>

definition get_batch_size :: "int \<Rightarrow> int \<Rightarrow> int \<Rightarrow> int \<times> int \<times> int" where
  "get_batch_size capacity total_configurations off =
     (let bs = max 1 capacity;
          total = total_configurations - off
      in (bs, total div bs, total mod bs))"

definition prepare_monitors :: "int \<Rightarrow> Experiment \<Rightarrow> 'v state \<Rightarrow> 'v state" where
  "prepare_monitors capacity expt st =
     (case get_batch_size capacity (int (number_of_configurations expt)) (offset st) of
        (bs, nb, r) \<Rightarrow> st\<lparr>batch_size := bs, n_batches := nb, remainder := r\<rparr>)"

text \<open>\<^verbatim>\<open>_prepare_database_entry\<close>.\<close>

definition prepare_database_entry ::
  "transformation \<Rightarrow> Experiment \<Rightarrow> string \<Rightarrow> 'v::zero state
     \<Rightarrow> ('v, (string \<times> ds_entry) list) result" where
  "prepare_database_entry self expt sp st =
     (let path = join_path sp (name (output_property self))
      in case map_of (species expt) sp of
           None \<Rightarrow> (Inl (KeyError sp), st)
         | Some info \<Rightarrow>
             let n_part = n_particles info;
                 n_dim = n_dims (output_property self);
                 data_structure =
                   [(path, \<lparr>indices = Some slice_all, columns = Some [0..<n_dim],
                            ds_length = Some n_part\<rparr>)];
                 existing = run_dataset_check st path
             in if existing then
                  (case get_data_size st path of
                     Inl err \<Rightarrow> (Inl err, st)
                   | Inr old_shape \<Rightarrow>
                       (case old_shape of
                          [] \<Rightarrow> (Inl IndexError, st)
                        | old0 # _ \<Rightarrow>
                            let resize_structure =
                                  (path, (n_part,
                                          int (number_of_configurations expt) - int old0,
                                          n_dim));
                                st1 = st\<lparr>offset := int old0\<rparr>
                            in case resize_dataset resize_structure st1 of
                                 (Inl err, st2) \<Rightarrow> (Inl err, st2)
                               | (Inr _, st2) \<Rightarrow> (Inr data_structure, st2)))
                else
                  (let dataset_structure =
                         (path, (n_part, number_of_configurations expt, n_dim))
                   in case add_dataset dataset_structure st of
                        (Inl err, st2) \<Rightarrow> (Inl err, st2)
                      | (Inr _, st2) \<Rightarrow> (Inr data_structure, st2)))"

text \<open>
  Modelled from the spec: the class \<^verbatim>\<open>DataManager\<close> is not among the sources. Its generator
  yields batch \<open>i\<close> for the configurations from \<open>offset + i * batch_size\<close>, \<open>batch_size\<close> of
  them, for \<open>i\<close> below \<open>n_batches\<close>, then one batch of \<open>remainder\<close> configurations if the
  remainder is positive. A batch is a dictionary with the slice of each dataset under its
  path, and the number of configurations of the batch under \<^verbatim>\<open>data_size\<close>. The keys are
  bytes, as in the \<^verbatim>\<open>type_spec\<close> the driver builds.
\<close>

datatype 'v batch_value = Tensor "'v ndarray" | Size int

definition batch_ranges :: "'v state \<Rightarrow> (int \<times> int) list" where
  "batch_ranges st =
     map (\<lambda>i. (offset st + int i * batch_size st, batch_size st)) [0..<nat (n_batches st)]
     @ (if remainder st > 0
        then [(offset st + n_batches st * batch_size st, remainder st)] else [])"

fun read_paths ::
  "'v state \<Rightarrow> string list \<Rightarrow> int \<Rightarrow> int \<Rightarrow> py_error + (string \<times> 'v batch_value) list" where
  "read_paths st [] start len = Inr []"
| "read_paths st (p # ps) start len =
     (case read_range st p start len of
        Inl err \<Rightarrow> Inl err
      | Inr a \<Rightarrow>
          (case read_paths st ps start len of
             Inl err \<Rightarrow> Inl err
           | Inr rest \<Rightarrow> Inr ((p, Tensor a) # rest)))"

definition read_batch ::
  "'v state \<Rightarrow> string list \<Rightarrow> int \<times> int \<Rightarrow> py_error + (string \<times> 'v batch_value) list" where
  "read_batch st paths rng =
     (case rng of (start, len) \<Rightarrow>
        (case read_paths st paths start len of
           Inl err \<Rightarrow> Inl err
         | Inr d \<Rightarrow> Inr (d @ [(str_encode ''data_size'', Size len)])))"

text \<open>
  The body of the batch loop in \<^verbatim>\<open>run_transformation\<close> that removes the species from the
  keys: \<^verbatim>\<open>batch_dict_wo_species[str(key).split("/")[-1].strip("'")] = val\<close>.
\<close>

definition key_wo_species :: "string \<Rightarrow> string" where
  "key_wo_species key = py_strip (CHR 0x27) (last (py_split (CHR ''/'') (bytes_repr key)))"

definition batch_dict_wo_species :: "(string \<times> 'a) list \<Rightarrow> (string \<times> 'a) list" where
  "batch_dict_wo_species batch_dict =
     fold (\<lambda>(key, val). AList.update (key_wo_species key) val) batch_dict []"

text \<open>
  The batch loop: \<^verbatim>\<open>for index, batch_dict in enumerate(data_set)\<close>. Each batch is read when
  the loop comes to it, transformed by \<^verbatim>\<open>transform_batch\<close> (abstract in the source, the
  parameter \<open>transform_batch\<close> here) and saved at \<open>index * batch_size\<close>.
\<close>

fun batch_loop ::
  "((string \<times> 'v batch_value) list \<Rightarrow> py_error + 'v ndarray) \<Rightarrow> (string \<times> ds_entry) list
     \<Rightarrow> string list \<Rightarrow> (nat \<times> (int \<times> int)) list \<Rightarrow> 'v state \<Rightarrow> ('v, unit) result" where
  "batch_loop transform_batch ods paths [] st = (Inr (), st)"
| "batch_loop transform_batch ods paths ((index, rng) # rest) st =
     (case read_batch st paths rng of
        Inl err \<Rightarrow> (Inl err, st)
      | Inr batch_dict \<Rightarrow>
          (case transform_batch (batch_dict_wo_species batch_dict) of
             Inl err \<Rightarrow> (Inl err, st)
           | Inr transformed_batch \<Rightarrow>
               (case save_output transformed_batch (int index * batch_size st) ods st of
                  (Inl err, st') \<Rightarrow> (Inl err, st')
                | (Inr _, st') \<Rightarrow> batch_loop transform_batch ods paths rest st')))"

text \<open>
  The keys of \<^verbatim>\<open>type_spec\<close>: one per input property, a repeated path once.
\<close>

definition type_spec_keys :: "transformation \<Rightarrow> string \<Rightarrow> string list" where
  "type_spec_keys self sp =
     map fst (fold (\<lambda>prop. AList.update (str_encode (join_path sp (name prop))) (n_dims prop))
                   (input_properties self) [])"

text \<open>
  What \<^verbatim>\<open>run_transformation\<close> does for one species whose output dataset does not exist.
\<close>

definition transform_species ::
  "transformation \<Rightarrow> Experiment \<Rightarrow> int
     \<Rightarrow> ((string \<times> 'v batch_value) list \<Rightarrow> py_error + 'v ndarray)
     \<Rightarrow> string \<Rightarrow> 'v::zero state \<Rightarrow> ('v, unit) result" where
  "transform_species self expt capacity transform_batch sp st =
     (case prepare_database_entry self expt sp st of
        (Inl err, st1) \<Rightarrow> (Inl err, st1)
      | (Inr output_data_structure, st1) \<Rightarrow>
          let paths = type_spec_keys self sp;
              st2 = prepare_monitors capacity expt st1
          in batch_loop transform_batch output_data_structure paths
               (enumerate 0 (batch_ranges st2)) st2)"

text \<open>
  \<^verbatim>\<open>run_transformation\<close>, the loop over the species: a species whose output dataset exists
  is logged and skipped.
\<close>

fun run_species ::
  "transformation \<Rightarrow> Experiment \<Rightarrow> int
     \<Rightarrow> ((string \<times> 'v batch_value) list \<Rightarrow> py_error + 'v ndarray)
     \<Rightarrow> string list \<Rightarrow> 'v::zero state \<Rightarrow> ('v, unit) result" where
  "run_species self expt capacity transform_batch [] st = (Inr (), st)"
| "run_species self expt capacity transform_batch (sp # rest) st =
     (if check_existence st (os_path_join sp (name (output_property self)))
      then run_species self expt capacity transform_batch rest
             (st\<lparr>logged := logged st @
                  [name (output_property self) @ '' already exists for '' @ sp
                   @ '', skipping transformation'']\<rparr>)
      else
        (case transform_species self expt capacity transform_batch sp st of
           (Inl err, st') \<Rightarrow> (Inl err, st')
         | (Inr _, st') \<Rightarrow> run_species self expt capacity transform_batch rest st'))"

definition run_transformation ::
  "transformation \<Rightarrow> Experiment \<Rightarrow> int
     \<Rightarrow> ((string \<times> 'v batch_value) list \<Rightarrow> py_error + 'v ndarray)
     \<Rightarrow> string list option \<Rightarrow> 'v::zero state \<Rightarrow> ('v, unit) result" where
  "run_transformation self expt capacity transform_batch species_arg st =
     (let sps = (case species_arg of None \<Rightarrow> map fst (species expt) | Some l \<Rightarrow> l)
      in run_species self expt capacity transform_batch sps st)"

section \<open>Observations on a run and example inputs\<close>

text \<open>The writes in a list of calls, each with its chunk and its start index.\<close>

fun add_data_calls :: "'v call list \<Rightarrow> ('v chunk \<times> int) list" where
  "add_data_calls [] = []"
| "add_data_calls (AddData c s # cs) = (c, s) # add_data_calls cs"
| "add_data_calls (_ # cs) = add_data_calls cs"

text \<open>
  The dataset that \<^verbatim>\<open>_save_output\<close> addresses: the species and the property are the last two
  components of the first key of the data structure.
\<close>

definition output_dataset :: "(string \<times> ds_entry) list \<Rightarrow> string" where
  "output_dataset data_structure =
     (let path = py_split (CHR ''/'') (fst (hd data_structure))
      in join_path (path ! (length path - 2)) (last path))"

text \<open>How often \<^verbatim>\<open>_resolve_dependencies\<close> was entered in a list of calls.\<close>

fun resolver_invocations :: "'v call list \<Rightarrow> nat" where
  "resolver_invocations [] = 0"
| "resolver_invocations (ResolveDependencies d # cs) = Suc (resolver_invocations cs)"
| "resolver_invocations (_ # cs) = resolver_invocations cs"

text \<open>
  A name that \<^verbatim>\<open>str\<close> of a bytes object prints as it is and that the split and the strip
  leave whole: printable ASCII without slash, single quote and backslash.
\<close>

definition plain_name :: "string \<Rightarrow> bool" where
  "plain_name s =
     list_all (\<lambda>c. 32 \<le> (of_char c :: nat) \<and> (of_char c :: nat) < 127
                 \<and> c \<noteq> CHR ''/'' \<and> c \<noteq> CHR 0x27 \<and> c \<noteq> CHR 0x5C) s"

text \<open>
  A state before any call, with the given datasets, and an experiment with the species
  \<^verbatim>\<open>Na\<close> (two particles) and \<^verbatim>\<open>Cl\<close> (one particle) of five configurations.
\<close>

definition initial_state :: "(string \<Rightarrow> int ndarray option) \<Rightarrow> int state" where
  "initial_state db =
     \<lparr>offset = 0, batch_size = 0, n_batches = 0, remainder = 0, database = db,
      io_faults = [], calls = [], logged = []\<rparr>"

definition zeros :: "nat list \<Rightarrow> int ndarray" where
  "zeros sh = NDArray sh (\<lambda>idx. 0)"

definition salt :: Experiment where
  "salt =
     \<lparr>species = [(''Na'', \<lparr>sp_name = ''Na'', n_particles = 2, properties = []\<rparr>),
                 (''Cl'', \<lparr>sp_name = ''Cl'', n_particles = 1, properties = []\<rparr>)],
      number_of_configurations = 5\<rparr>"

text \<open>A transformation from \<^verbatim>\<open>Positions\<close> to \<^verbatim>\<open>Momentum\<close> with the given dependency.\<close>

definition momentum :: "string option \<Rightarrow> transformation" where
  "momentum dep =
     \<lparr>input_properties = [\<lparr>name = ''Positions'', n_dims = 3\<rparr>],
      output_property = \<lparr>name = ''Momentum'', n_dims = 3\<rparr>,
      dependency = dep\<rparr>"

text \<open>A \<^verbatim>\<open>perform_transformation\<close> that does nothing, and a batch transform that copies
  the positions.\<close>

definition perform_nothing :: "string \<Rightarrow> int state \<Rightarrow> (int, unit) result" where
  "perform_nothing t st = (Inr (), st)"

definition copy_positions :: "(string \<times> int batch_value) list \<Rightarrow> py_error + int ndarray" where
  "copy_positions batch =
     (case map_of batch ''Positions'' of
        Some (Tensor a) \<Rightarrow> Inr a
      | _ \<Rightarrow> Inl (KeyError ''Positions''))"

text \<open>
  The data structures of the output \<^verbatim>\<open>Momentum\<close> for the two species, an array whose
  elements tell their index, and a store with the positions of both species.
\<close>

definition momentum_structure :: "string \<Rightarrow> nat \<Rightarrow> (string \<times> ds_entry) list" where
  "momentum_structure sp n =
     [(join_path sp ''Momentum'',
       \<lparr>indices = Some slice_all, columns = Some [0, 1, 2], ds_length = Some n\<rparr>)]"

definition ramp :: "nat list \<Rightarrow> int ndarray" where
  "ramp sh = NDArray sh (\<lambda>idx. int (foldl (\<lambda>acc i. 10 * acc + i) 1 idx))"

definition positions_store :: "string \<Rightarrow> int ndarray option" where
  "positions_store =
     [''Na/Positions'' \<mapsto> ramp [2, 5, 3], ''Cl/Positions'' \<mapsto> ramp [1, 5, 3]]"

text \<open>A batch transform that raises with the keys it was given.\<close>

definition report_keys :: "(string \<times> int batch_value) list \<Rightarrow> py_error + int ndarray" where
  "report_keys batch = Inl (KeyError (concat (map (\<lambda>k. k @ '','') (map fst batch))))"

section \<open>Properties of the string operations\<close>

lemma py_split_nonempty: "py_split sep s \<noteq> []"
  by (induction s) (auto split: list.splits)

lemma py_split_whole: "sep \<notin> set t \<Longrightarrow> py_split sep t = [t]"
  by (induction t) auto

lemma py_split_append: "py_split sep (s @ sep # t) = py_split sep s @ py_split sep t"
proof (induction s)
  case Nil
  then show ?case by simp
next
  case (Cons c s)
  obtain w ws where "py_split sep s = w # ws"
    using py_split_nonempty [of sep s] by (cases "py_split sep s") auto
  with Cons show ?case by simp
qed

lemma py_split_last:
  "sep \<notin> set t \<Longrightarrow> last (py_split sep (s @ sep # t)) = t"
  by (simp add: py_split_append py_split_whole)

section \<open>Properties of the flux-file generator\<close>

lemma read_batches_length:
  "length (fst (read_batches file k b pos)) = k"
  by (induction k arbitrary: pos)
     (simp_all add: read_process_n_configurations_def Let_def case_prod_beta)

lemma read_batches_full:
  assumes "0 \<le> b" and "pos + k * nat b \<le> length file"
  shows "snd (read_batches file k b pos) = pos + k * nat b
       \<and> (\<forall>i<k. fst (read_batches file k b pos) ! i =
             \<lparr>first_config = pos + i * nat b,
              configs = take (nat b) (drop (pos + i * nat b) file)\<rparr>)"
  using assms
proof (induction k arbitrary: pos)
  case 0
  then show ?case by simp
next
  case (Suc k)
  have len: "length (take (nat b) (drop pos file)) = nat b"
    using Suc.prems by simp
  have step: "(pos + nat b) + k * nat b \<le> length file"
    using Suc.prems by (simp add: algebra_simps)
  note ih = Suc.IH [OF Suc.prems(1) step]
  show ?case
  proof (intro conjI allI impI)
    show "snd (read_batches file (Suc k) b pos) = pos + Suc k * nat b"
      using ih len
      by (simp add: read_process_n_configurations_def Let_def case_prod_beta)
  next
    fix i assume "i < Suc k"
    show "fst (read_batches file (Suc k) b pos) ! i =
            \<lparr>first_config = pos + i * nat b,
             configs = take (nat b) (drop (pos + i * nat b) file)\<rparr>"
    proof (cases i)
      case 0
      then show ?thesis
        by (simp add: read_process_n_configurations_def Let_def case_prod_beta)
    next
      case (Suc j)
      with \<open>i < Suc k\<close> have "j < k" by simp
      with ih have "fst (read_batches file k b (pos + nat b)) ! j =
            \<lparr>first_config = pos + nat b + j * nat b,
             configs = take (nat b) (drop (pos + nat b + j * nat b) file)\<rparr>"
        by blast
      then show ?thesis
        using Suc len
        by (simp add: read_process_n_configurations_def Let_def case_prod_beta
                      add.assoc)
    qed
  qed
qed

lemma read_batches_concat:
  assumes "0 \<le> b" and "pos + k * nat b \<le> length file"
  shows "concat (map configs (fst (read_batches file k b pos)))
           = take (k * nat b) (drop pos file)"
  using assms
proof (induction k arbitrary: pos)
  case 0
  then show ?case by simp
next
  case (Suc k)
  have len: "length (take (nat b) (drop pos file)) = nat b"
    using Suc.prems by simp
  have step: "(pos + nat b) + k * nat b \<le> length file"
    using Suc.prems by (simp add: algebra_simps)
  have "concat (map configs (fst (read_batches file (Suc k) b pos)))
          = take (nat b) (drop pos file)
            @ concat (map configs (fst (read_batches file k b (pos + nat b))))"
    using len by (simp add: read_process_n_configurations_def Let_def case_prod_beta)
  also have "\<dots> = take (nat b) (drop pos file)
                   @ take (k * nat b) (drop (nat b) (drop pos file))"
    using Suc.IH [OF Suc.prems(1) step] by (simp add: add.commute)
  also have "\<dots> = take (nat b + k * nat b) (drop pos file)"
    by (simp add: take_add)
  finally show ?case by simp
qed

lemma generator_unfold:
  assumes "b \<noteq> 0"
  shows "get_configurations_generator n b file =
           Inr (fst (read_batches file (nat (n div b)) b 0)
                @ (if 0 < n mod b
                   then [fst (read_process_n_configurations file
                                (snd (read_batches file (nat (n div b)) b 0)) (n mod b))]
                   else []))"
  using assms by (simp add: get_configurations_generator_def Let_def case_prod_beta)

text \<open>
  Claim C5. For a file holding at least \<open>n\<close> configurations, \<open>n \<ge> 1\<close>, and a batch size
  \<open>b \<ge> 1\<close>, the generator yields \<open>n div b\<close> chunks of \<open>b\<close> configurations each, chunk \<open>i\<close>
  read at configuration \<open>i * b\<close>, then one last chunk of \<open>n mod b\<close> configurations exactly
  when that remainder is positive. The chunks come in strictly increasing order of their
  first configuration, their lengths add up to \<open>n\<close>, and together they are the first \<open>n\<close>
  configurations of the file in order.
\<close>

theorem flux_generator_chunks:
  assumes n: "1 \<le> n" and b: "1 \<le> b" and fl: "n \<le> int (length file)"
  shows "\<exists>chunks. get_configurations_generator n b file = Inr chunks
    \<and> length chunks = nat (n div b) + (if 0 < n mod b then 1 else 0)
    \<and> (\<forall>i < nat (n div b).
          first_config (chunks ! i) = i * nat b
        \<and> configs (chunks ! i) = take (nat b) (drop (i * nat b) file)
        \<and> length (configs (chunks ! i)) = nat b)
    \<and> (0 < n mod b \<longrightarrow>
          first_config (last chunks) = nat (n div b) * nat b
        \<and> configs (last chunks) = take (nat (n mod b)) (drop (nat (n div b) * nat b) file)
        \<and> length (configs (last chunks)) = nat (n mod b))
    \<and> (\<forall>i j. i < j \<and> j < length chunks
          \<longrightarrow> first_config (chunks ! i) < first_config (chunks ! j))
    \<and> sum_list (map (\<lambda>c. length (configs c)) chunks) = nat n
    \<and> concat (map configs chunks) = take (nat n) file"
proof -
  define K where "K = nat (n div b)"
  define B where "B = nat b"
  define R where "R = nat (n mod b)"
  define cs where "cs = fst (read_batches file K b 0)"
  define tl_chunk where
    "tl_chunk = \<lparr>first_config = K * B, configs = take R (drop (K * B) file)\<rparr>"
  define chunks where "chunks = cs @ (if 0 < n mod b then [tl_chunk] else [])"
  have b0: "0 \<le> b" "b \<noteq> 0" and Bpos: "0 < B" using b by (simp_all add: B_def)
  have divnn: "0 \<le> n div b" using n b by (simp add: pos_imp_zdiv_nonneg_iff)
  have modnn: "0 \<le> n mod b" using b by simp
  have "int (K * B) + int R = n"
    using divnn modnn b0 by (simp add: K_def B_def R_def)
  then have total: "K * B + R = nat n" by linarith
  then have fits: "0 + K * nat b \<le> length file" and fitsR: "K * B + R \<le> length file"
    using fl by (simp_all add: B_def)
  note full = read_batches_full [OF b0(1) fits]
  have pos: "snd (read_batches file K b 0) = K * B"
    using full by (simp add: B_def)
  have nth_cs: "cs ! i = \<lparr>first_config = i * B, configs = take B (drop (i * B) file)\<rparr>"
    if "i < K" for i
    using full that by (simp add: cs_def B_def)
  have len_cs: "length cs = K" by (simp add: cs_def read_batches_length)
  have gen: "get_configurations_generator n b file = Inr chunks"
    using pos
    by (simp add: generator_unfold [OF b0(2)] chunks_def cs_def tl_chunk_def K_def
                  read_process_n_configurations_def Let_def R_def)
  have len_chunks: "length chunks = K + (if 0 < n mod b then 1 else 0)"
    by (simp add: chunks_def len_cs)
  have nth_low: "chunks ! i = cs ! i" if "i < K" for i
    using that by (simp add: chunks_def nth_append len_cs)
  have in_file: "i * B + B \<le> length file" if "i < K" for i
  proof -
    have "Suc i \<le> K" using that by simp
    then have "Suc i * B \<le> K * B" by (rule mult_le_mono1)
    with fitsR show ?thesis by (simp add: add.commute)
  qed
  have first: "first_config (chunks ! i) = i * B" if "i < length chunks" for i
  proof (cases "i < K")
    case True
    then show ?thesis by (simp add: nth_low nth_cs)
  next
    case False
    with that len_chunks have "i = K" "0 < n mod b" by (auto split: if_splits)
    then show ?thesis by (simp add: chunks_def nth_append len_cs tl_chunk_def)
  qed
  have low: "first_config (chunks ! i) = i * B
           \<and> configs (chunks ! i) = take B (drop (i * B) file)
           \<and> length (configs (chunks ! i)) = B" if "i < K" for i
    using that in_file [OF that] by (simp add: nth_low nth_cs)
  have lastc: "first_config (last chunks) = K * B
             \<and> configs (last chunks) = take R (drop (K * B) file)
             \<and> length (configs (last chunks)) = R" if "0 < n mod b"
    using that fitsR by (simp add: chunks_def tl_chunk_def)
  have mono: "first_config (chunks ! i) < first_config (chunks ! j)"
    if "i < j \<and> j < length chunks" for i j
    using that Bpos by (simp add: first)
  have cat_cs: "concat (map configs cs) = take (K * B) file"
    using read_batches_concat [OF b0(1) fits] by (simp add: cs_def B_def)
  have cat: "concat (map configs chunks) = take (nat n) file"
  proof (cases "0 < n mod b")
    case True
    then have "concat (map configs chunks) = take (K * B) file @ take R (drop (K * B) file)"
      by (simp add: chunks_def cat_cs tl_chunk_def)
    also have "\<dots> = take (K * B + R) file" by (simp add: take_add)
    finally show ?thesis by (simp add: total)
  next
    case False
    with modnn have "R = 0" by (simp add: R_def)
    with False total show ?thesis by (simp add: chunks_def cat_cs)
  qed
  have "sum_list (map (\<lambda>c. length (configs c)) chunks) = length (concat (map configs chunks))"
    by (simp add: length_concat comp_def)
  also have "\<dots> = nat n" using fl by (simp add: cat)
  finally have total_len: "sum_list (map (\<lambda>c. length (configs c)) chunks) = nat n" .
  from gen len_chunks low lastc mono total_len cat show ?thesis
    unfolding K_def B_def R_def by blast
qed

text \<open>The theorem at seven configurations in batches of three.\<close>

theorem flux_generator_chunks_witness:
  "\<exists>chunks. get_configurations_generator 7 3 [10, 11, 12, 13, 14, 15, 16 :: nat] = Inr chunks
    \<and> length chunks = 3
    \<and> map configs chunks = [[10, 11, 12], [13, 14, 15], [16]]
    \<and> sum_list (map (\<lambda>c. length (configs c)) chunks) = 7"
  using flux_generator_chunks [of 7 3 "[10, 11, 12, 13, 14, 15, 16 :: nat]"]
  by (simp add: get_configurations_generator_def read_process_n_configurations_def
                Let_def numeral_3_eq_3 numeral_2_eq_2)

section \<open>Properties of the dependency resolution\<close>

lemma check_existence_calls [simp]:
  "check_existence (st\<lparr>calls := cs\<rparr>) path = check_existence st path"
  by (simp add: check_existence_def)

lemma check_existence_logged [simp]:
  "check_existence (st\<lparr>logged := ls\<rparr>) path = check_existence st path"
  by (simp add: check_existence_def)

lemma unwrap_choice_calls [simp]:
  "unwrap_choice (st\<lparr>calls := cs\<rparr>) = unwrap_choice st"
  by (simp add: unwrap_choice_def)

lemma switcher_lookup:
  "map_of (dict_merge [(''Unwrapped_Positions'', u)] switcher_transformations) k =
     (case map_of switcher_transformations k of
        Some t \<Rightarrow> Some t
      | None \<Rightarrow> if k = ''Unwrapped_Positions'' then Some u else None)"
  by (simp add: dict_merge_def switcher_transformations_def update_conv')

lemma string_to_function_unwrapped:
  "string_to_function st ''Unwrapped_Positions'' = Inr (unwrap_choice st)"
  by (simp add: string_to_function_def switcher_lookup)
     (simp add: switcher_transformations_def)

text \<open>
  Claim C6. Resolving the name \<^verbatim>\<open>"Unwrapped_Positions"\<close> gives the transformation chosen by
  \<^verbatim>\<open>_unwrap_choice\<close>, which is \<^verbatim>\<open>UnwrapViaIndices\<close> if and only if the store has a dataset
  \<^verbatim>\<open>Box_Images\<close> and \<^verbatim>\<open>UnwrapCoordinates\<close> if and only if it has none; that transformation
  is the one handed to the experiment's \<^verbatim>\<open>perform_transformation\<close>.
\<close>

theorem unwrapped_positions_resolution:
  "string_to_function st ''Unwrapped_Positions'' = Inr (unwrap_choice st)
   \<and> (unwrap_choice st = ''UnwrapViaIndices'' \<longleftrightarrow> check_existence st ''Box_Images'')
   \<and> (unwrap_choice st = ''UnwrapCoordinates'' \<longleftrightarrow> \<not> check_existence st ''Box_Images'')
   \<and> resolve_dependencies perform ''Unwrapped_Positions'' st =
       perform (unwrap_choice st)
         (st\<lparr>calls := calls st @ [ResolveDependencies ''Unwrapped_Positions'',
                                  PerformTransformation (unwrap_choice st)]\<rparr>)"
proof (intro conjI)
  show "string_to_function st ''Unwrapped_Positions'' = Inr (unwrap_choice st)"
    by (rule string_to_function_unwrapped)
  show "unwrap_choice st = ''UnwrapViaIndices'' \<longleftrightarrow> check_existence st ''Box_Images''"
    by (simp add: unwrap_choice_def)
  show "unwrap_choice st = ''UnwrapCoordinates'' \<longleftrightarrow> \<not> check_existence st ''Box_Images''"
    by (simp add: unwrap_choice_def)
  show "resolve_dependencies perform ''Unwrapped_Positions'' st =
       perform (unwrap_choice st)
         (st\<lparr>calls := calls st @ [ResolveDependencies ''Unwrapped_Positions'',
                                  PerformTransformation (unwrap_choice st)]\<rparr>)"
    by (simp add: resolve_dependencies_def Let_def string_to_function_unwrapped)
qed

text \<open>
  Claim C7. A dependency name that is neither \<^verbatim>\<open>"Unwrapped_Positions"\<close> nor a key of
  \<^verbatim>\<open>switcher_transformations\<close> makes \<^verbatim>\<open>_resolve_dependencies\<close> raise the \<^verbatim>\<open>KeyError\<close> with the
  message that the data is not in the database and can not be generated (the
  unresolved-dependency failure). No transformation is performed, no call is made on the
  store and its datasets are as before.
\<close>

theorem unknown_dependency_raises:
  assumes "dep \<noteq> ''Unwrapped_Positions''"
      and "map_of switcher_transformations dep = None"
  shows "resolve_dependencies perform dep st =
           (Inl (KeyError ''Data not in database and can not be generated.''),
            st\<lparr>calls := calls st @ [ResolveDependencies dep]\<rparr>)
       \<and> database (snd (resolve_dependencies perform dep st)) = database st
       \<and> calls (snd (resolve_dependencies perform dep st))
           = calls st @ [ResolveDependencies dep]"
  using assms
  by (simp add: resolve_dependencies_def Let_def string_to_function_def switcher_lookup)


text \<open>The two choices, at a store with and without \<^verbatim>\<open>Box_Images\<close>.\<close>

theorem unwrapped_positions_resolution_witness:
  "string_to_function (initial_state [''Box_Images'' \<mapsto> zeros [1, 5, 3]]) ''Unwrapped_Positions''
     = Inr ''UnwrapViaIndices''
   \<and> string_to_function (initial_state Map.empty) ''Unwrapped_Positions''
     = Inr ''UnwrapCoordinates''"
  using unwrapped_positions_resolution [of "initial_state [''Box_Images'' \<mapsto> zeros [1, 5, 3]]"]
        unwrapped_positions_resolution [of "initial_state Map.empty"]
  by (simp add: unwrap_choice_def check_existence_def initial_state_def)

text \<open>The theorem at the name \<^verbatim>\<open>Pressure\<close>, which no table knows.\<close>

theorem unknown_dependency_raises_witness:
  "resolve_dependencies perform_nothing ''Pressure'' (initial_state Map.empty) =
     (Inl (KeyError ''Data not in database and can not be generated.''),
      (initial_state Map.empty)\<lparr>calls := [ResolveDependencies ''Pressure'']\<rparr>)"
  using unknown_dependency_raises [of "''Pressure''" perform_nothing "initial_state Map.empty"]
  by (simp add: switcher_transformations_def initial_state_def)

lemma resolver_invocations_append [simp]:
  "resolver_invocations (xs @ ys) = resolver_invocations xs + resolver_invocations ys"
  by (induction xs rule: resolver_invocations.induct) simp_all

text \<open>
  Claim C10. With the dependency set, \<^verbatim>\<open>_run_dependency_check\<close> returns at once, leaving
  the state as it is, if the dependency's dataset exists for every species of the
  experiment; otherwise it is one call of \<^verbatim>\<open>_resolve_dependencies\<close> for the dependency,
  whatever the number of species that miss it. Counting the entries into the resolver
  (for a \<^verbatim>\<open>perform_transformation\<close> that makes none of its own): none is added if and only
  if the dataset exists for every species, and exactly one otherwise.
\<close>

theorem dependency_check_resolves_once:
  assumes dep: "dependency self = Some dep"
      and quiet: "\<forall>t s. resolver_invocations (calls (snd (perform t s)))
                         = resolver_invocations (calls s)"
  shows "run_dependency_check self expt perform st =
           (if list_all (\<lambda>sp. check_existence st (join_path sp dep)) (map fst (species expt))
            then (Inr (), st)
            else resolve_dependencies perform dep st)
       \<and> (resolver_invocations (calls (snd (run_dependency_check self expt perform st)))
            = resolver_invocations (calls st)
          \<longleftrightarrow> list_all (\<lambda>sp. check_existence st (join_path sp dep)) (map fst (species expt)))
       \<and> (\<not> list_all (\<lambda>sp. check_existence st (join_path sp dep)) (map fst (species expt))
          \<longrightarrow> resolver_invocations (calls (snd (run_dependency_check self expt perform st)))
                = resolver_invocations (calls st) + 1)"
proof -
  let ?all = "list_all (\<lambda>sp. check_existence st (join_path sp dep)) (map fst (species expt))"
  have run: "run_dependency_check self expt perform st =
           (if ?all then (Inr (), st) else resolve_dependencies perform dep st)"
    using dep by (simp add: run_dependency_check_def Let_def list_all_iff)
  have once: "resolver_invocations (calls (snd (resolve_dependencies perform dep st)))
                = resolver_invocations (calls st) + 1"
    using quiet
    by (simp add: resolve_dependencies_def Let_def split: sum.splits)
  show ?thesis
    using run once by simp
qed

text \<open>
  The theorem where \<^verbatim>\<open>Na\<close> has the dependency and \<^verbatim>\<open>Cl\<close> has not, and where both have.
\<close>

theorem dependency_check_resolves_once_witness:
  "calls (snd (run_dependency_check (momentum (Some ''Unwrapped_Positions'')) salt
                 perform_nothing
                 (initial_state [''Na/Unwrapped_Positions'' \<mapsto> zeros [2, 5, 3]])))
     = [ResolveDependencies ''Unwrapped_Positions'', PerformTransformation ''UnwrapCoordinates'']
   \<and> run_dependency_check (momentum (Some ''Unwrapped_Positions'')) salt perform_nothing
        (initial_state [''Na/Unwrapped_Positions'' \<mapsto> zeros [2, 5, 3],
                        ''Cl/Unwrapped_Positions'' \<mapsto> zeros [1, 5, 3]])
     = (Inr (), initial_state [''Na/Unwrapped_Positions'' \<mapsto> zeros [2, 5, 3],
                              ''Cl/Unwrapped_Positions'' \<mapsto> zeros [1, 5, 3]])"
  using dependency_check_resolves_once
          [of "momentum (Some ''Unwrapped_Positions'')" "''Unwrapped_Positions''"
              perform_nothing salt
              "initial_state [''Na/Unwrapped_Positions'' \<mapsto> zeros [2, 5, 3]]"]
        dependency_check_resolves_once
          [of "momentum (Some ''Unwrapped_Positions'')" "''Unwrapped_Positions''"
              perform_nothing salt
              "initial_state [''Na/Unwrapped_Positions'' \<mapsto> zeros [2, 5, 3],
                              ''Cl/Unwrapped_Positions'' \<mapsto> zeros [1, 5, 3]]"]
  by (simp add: momentum_def salt_def perform_nothing_def initial_state_def
                check_existence_def join_path_def resolve_dependencies_def
                string_to_function_unwrapped unwrap_choice_def)

section \<open>Properties of saving a transformed batch\<close>

lemma swap01_swap01 [simp]: "swap01 (swap01 xs) = xs"
  by (induction xs rule: swap01.induct) simp_all

lemma np_swapaxes_involution: "np_swapaxes (np_swapaxes a) = a"
  by (cases a) (simp add: np_swapaxes_def)

lemma save_output_chunk_entries:
  assumes "save_output_chunk data ods = Inr c"
  shows "\<exists>sp prop sl.
           c = chunk_add_data
                 (np_swapaxes (if length (np_shape data) = 2 then np_newaxis data else data))
                 0 sp prop
                 (TrajectoryChunkData
                    (np_shape (if length (np_shape data) = 2 then np_newaxis data else data) ! 1)
                    sl)"
  using assms
  by (auto simp: save_output_chunk_def Let_def
           split: list.splits prod.splits if_splits sum.splits option.splits index_spec.splits)

lemma write_single_entry:
  assumes shape: "np_shape a = [p, b, n]"
      and written: "write_entries start [((sp, prop), 0, np_swapaxes a)] db = Inr db'"
  shows "\<exists>ds'. db' (join_path sp prop) = Some ds'
              \<and> length (np_shape ds') = 3 \<and> np_shape ds' ! 0 = p \<and> np_shape ds' ! 2 = n
              \<and> (\<forall>i t k. t < b \<longrightarrow> elem ds' [i, nat start + t, k] = elem a [i, t, k])"
  using written shape
  by (auto simp: write_entry_def np_swapaxes_def Let_def
           split: option.splits list.splits if_splits sum.splits)

text \<open>
  Claim C9. Let \<open>a\<close> be the result of \<^verbatim>\<open>transform_batch\<close>, with a leading axis of size 1
  inserted if its rank is two. The chunk that \<^verbatim>\<open>_save_output\<close> builds holds \<open>a\<close> with the
  first two axes swapped, at offset 0, and has the size of the second axis of \<open>a\<close>. For a
  result of shape \<open>[b, n]\<close> the array \<open>a\<close> has shape \<open>[1, b, n]\<close> and the same values; a
  result of rank three is \<open>a\<close> itself; in both cases \<open>a\<close> has rank three. When the store
  takes the chunk, the configurations from the start index of the dataset hold \<open>a\<close>, whose
  shape is \<open>[p, b, n]\<close> with the dataset's \<open>p\<close> particles and \<open>n\<close> dimensions.
\<close>

theorem particle_axis_inserted:
  assumes chunk: "save_output_chunk data ods = Inr c"
      and a: "a = (if length (np_shape data) = 2 then np_newaxis data else data)"
  shows "(\<exists>sp prop. entries c = [((sp, prop), 0, np_swapaxes a)]
            \<and> (\<forall>p b n start db db'.
                  np_shape a = [p, b, n] \<and> write_entries start (entries c) db = Inr db'
                  \<longrightarrow> (\<exists>ds'. db' (join_path sp prop) = Some ds'
                         \<and> length (np_shape ds') = 3
                         \<and> np_shape ds' ! 0 = p \<and> np_shape ds' ! 2 = n
                         \<and> (\<forall>i t k. t < b
                              \<longrightarrow> elem ds' [i, nat start + t, k] = elem a [i, t, k]))))
       \<and> chunk_size c = np_shape a ! 1
       \<and> np_swapaxes (np_swapaxes a) = a
       \<and> (\<forall>b n. np_shape data = [b, n]
            \<longrightarrow> np_shape a = [1, b, n] \<and> (\<forall>t k. elem a [0, t, k] = elem data [t, k]))
       \<and> (length (np_shape data) = 3 \<longrightarrow> a = data)
       \<and> (length (np_shape data) = 2 \<or> length (np_shape data) = 3
            \<longrightarrow> length (np_shape a) = 3)"
proof -
  obtain sp pr sl where c: "c = chunk_add_data (np_swapaxes a) 0 sp pr
                                    (TrajectoryChunkData (np_shape a ! 1) sl)"
    using save_output_chunk_entries [OF chunk] a by auto
  have ent: "entries c = [((sp, pr), 0, np_swapaxes a)]"
    by (simp add: c chunk_add_data_def TrajectoryChunkData_def)
  have size: "chunk_size c = np_shape a ! 1"
    by (simp add: c chunk_add_data_def TrajectoryChunkData_def)
  have store: "\<forall>p b n start db db'.
                  np_shape a = [p, b, n] \<and> write_entries start (entries c) db = Inr db'
                  \<longrightarrow> (\<exists>ds'. db' (join_path sp pr) = Some ds'
                         \<and> length (np_shape ds') = 3
                         \<and> np_shape ds' ! 0 = p \<and> np_shape ds' ! 2 = n
                         \<and> (\<forall>i t k. t < b
                              \<longrightarrow> elem ds' [i, nat start + t, k] = elem a [i, t, k]))"
    unfolding ent using write_single_entry by blast
  have rank2: "\<forall>b n. np_shape data = [b, n]
            \<longrightarrow> np_shape a = [1, b, n] \<and> (\<forall>t k. elem a [0, t, k] = elem data [t, k])"
    by (simp add: a np_newaxis_def)
  have rank3: "length (np_shape data) = 3 \<longrightarrow> a = data"
    by (simp add: a)
  have rank: "length (np_shape data) = 2 \<or> length (np_shape data) = 3
            \<longrightarrow> length (np_shape a) = 3"
    by (auto simp: a np_newaxis_def)
  from ent store size rank2 rank3 rank show ?thesis
    by (simp add: np_swapaxes_involution)
qed


text \<open>The theorem at a result of shape \<open>[2, 3]\<close> for the species of one particle.\<close>

theorem particle_axis_inserted_witness:
  "\<exists>c. save_output_chunk (ramp [2, 3]) (momentum_structure ''Cl'' 1) = Inr c
      \<and> chunk_size c = 2
      \<and> (\<exists>key. entries c = [(key, 0, np_swapaxes (np_newaxis (ramp [2, 3])))])
      \<and> np_shape (np_newaxis (ramp [2, 3])) = [1, 2, 3]
      \<and> elem (np_newaxis (ramp [2, 3])) [0, 1, 2] = elem (ramp [2, 3]) [1, 2]"
proof -
  let ?c = "chunk_add_data (np_swapaxes (np_newaxis (ramp [2, 3]))) 0 ''Cl'' ''Momentum''
              (TrajectoryChunkData 2
                 [\<lparr>sp_name = ''Cl'', n_particles = 1,
                   properties = [\<lparr>name = ''Momentum'', n_dims = 3\<rparr>]\<rparr>])"
  have c: "save_output_chunk (ramp [2, 3]) (momentum_structure ''Cl'' 1) = Inr ?c"
    by (simp add: save_output_chunk_def momentum_structure_def join_path_def ramp_def Let_def
                  np_newaxis_def numeral_3_eq_3)
  have a: "np_newaxis (ramp [2, 3])
             = (if length (np_shape (ramp [2, 3])) = 2 then np_newaxis (ramp [2, 3])
                else ramp [2, 3])"
    by (simp add: ramp_def)
  have sh: "np_shape (ramp [2, 3]) = [2, 3]" by (simp add: ramp_def)
  from particle_axis_inserted [OF c a] sh c show ?thesis
    by auto
qed


lemma add_data_fault:
  "io_faults st = Some e # fs \<Longrightarrow>
   add_data c s st = (Inl e, st\<lparr>calls := calls st @ [AddData c s], io_faults := fs\<rparr>)"
  by (simp add: add_data_def Let_def)

lemma add_data_through:
  "io_faults st = None # fs \<Longrightarrow>
   add_data c s st =
     (case write_entries s (entries c) (database st) of
        Inl err \<Rightarrow> (Inl err, st\<lparr>calls := calls st @ [AddData c s], io_faults := fs\<rparr>)
      | Inr db' \<Rightarrow> (Inr (), st\<lparr>calls := calls st @ [AddData c s], io_faults := fs,
                              database := db'\<rparr>))"
  by (simp add: add_data_def Let_def)

text \<open>
  Claim C3. When the first attempt to write the chunk raises an \<open>OSError\<close>, \<^verbatim>\<open>_save_output\<close>
  makes exactly these calls: the write, a sleep of half a second, the same write again.
  What the second attempt meets decides the result: if it goes through, the call returns
  and the store holds the written data; if it raises, that error is the result and the
  store is as before. Nothing is tried a third time: the outcomes waiting after the
  second one are untouched.
\<close>

theorem write_retried_once:
  assumes chunk: "save_output_chunk data ods = Inr c"
      and faults: "io_faults st = Some OSError # second # later"
  shows "calls (snd (save_output data index ods st))
           = calls st @ [AddData c (index + offset st), Sleep (1 / 2),
                         AddData c (index + offset st)]
       \<and> io_faults (snd (save_output data index ods st)) = later
       \<and> (\<forall>db'. second = None
                 \<and> write_entries (index + offset st) (entries c) (database st) = Inr db'
            \<longrightarrow> fst (save_output data index ods st) = Inr ()
                \<and> database (snd (save_output data index ods st)) = db')
       \<and> (\<forall>e. second = Some e
            \<longrightarrow> fst (save_output data index ods st) = Inl e
                \<and> database (snd (save_output data index ods st)) = database st)"
proof -
  let ?s = "index + offset st"
  let ?st1 = "st\<lparr>calls := calls st @ [AddData c ?s], io_faults := second # later\<rparr>"
  let ?st2 = "?st1\<lparr>calls := calls ?st1 @ [Sleep 0.5]\<rparr>"
  have first: "add_data c ?s st = (Inl OSError, ?st1)"
    using faults by (rule add_data_fault)
  have run: "save_output data index ods st = add_data c ?s ?st2"
    by (simp add: save_output_def chunk first Let_def)
  show ?thesis
  proof (cases second)
    case None
    then have "io_faults ?st2 = None # later" by simp
    from add_data_through [OF this, of c ?s] show ?thesis
      by (simp add: run None split: sum.splits)
  next
    case (Some e)
    then have "io_faults ?st2 = Some e # later" by simp
    from add_data_fault [OF this, of c ?s] show ?thesis
      by (simp add: run Some)
  qed
qed

text \<open>The theorem where the second attempt goes through, and where it fails as well.\<close>

theorem write_retried_once_witness:
  "fst (save_output (ramp [1, 2, 3]) 0 (momentum_structure ''Cl'' 1)
          ((initial_state [''Cl/Momentum'' \<mapsto> zeros [1, 5, 3]])
             \<lparr>io_faults := [Some OSError, None]\<rparr>)) = Inr ()
   \<and> length (calls (snd (save_output (ramp [1, 2, 3]) 0 (momentum_structure ''Cl'' 1)
          ((initial_state [''Cl/Momentum'' \<mapsto> zeros [1, 5, 3]])
             \<lparr>io_faults := [Some OSError, None]\<rparr>)))) = 3
   \<and> fst (save_output (ramp [1, 2, 3]) 0 (momentum_structure ''Cl'' 1)
          ((initial_state [''Cl/Momentum'' \<mapsto> zeros [1, 5, 3]])
             \<lparr>io_faults := [Some OSError, Some OSError, None]\<rparr>)) = Inl OSError
   \<and> io_faults (snd (save_output (ramp [1, 2, 3]) 0 (momentum_structure ''Cl'' 1)
          ((initial_state [''Cl/Momentum'' \<mapsto> zeros [1, 5, 3]])
             \<lparr>io_faults := [Some OSError, Some OSError, None]\<rparr>))) = [None]"
proof -
  let ?c = "chunk_add_data (np_swapaxes (ramp [1, 2, 3])) 0 ''Cl'' ''Momentum''
              (TrajectoryChunkData 2
                 [\<lparr>sp_name = ''Cl'', n_particles = 1,
                   properties = [\<lparr>name = ''Momentum'', n_dims = 3\<rparr>]\<rparr>])"
  let ?st = "initial_state [''Cl/Momentum'' \<mapsto> zeros [1, 5, 3]]"
  have c: "save_output_chunk (ramp [1, 2, 3]) (momentum_structure ''Cl'' 1) = Inr ?c"
    by (simp add: save_output_chunk_def momentum_structure_def join_path_def ramp_def Let_def
                  numeral_3_eq_3)
  have f1: "io_faults (?st\<lparr>io_faults := [Some OSError, None]\<rparr>) = Some OSError # None # []"
    by simp
  have f2: "io_faults (?st\<lparr>io_faults := [Some OSError, Some OSError, None]\<rparr>)
              = Some OSError # Some OSError # [None]"
    by simp
  have w: "\<exists>db'. write_entries (0 + offset (?st\<lparr>io_faults := [Some OSError, None]\<rparr>))
                   (entries ?c) (database (?st\<lparr>io_faults := [Some OSError, None]\<rparr>)) = Inr db'"
    by (simp add: chunk_add_data_def TrajectoryChunkData_def write_entry_def initial_state_def
                  join_path_def zeros_def np_swapaxes_def ramp_def Let_def)
  have e: "calls ?st = []" by (simp add: initial_state_def)
  from write_retried_once [OF c f1, of 0] write_retried_once [OF c f2, of 0] w e
  show ?thesis by auto
qed


section \<open>Properties of the run over the species\<close>

lemma run_species_all_existing:
  assumes "\<forall>sp \<in> set sps. check_existence st (os_path_join sp (name (output_property self)))"
  shows "\<exists>msgs. run_species self expt capacity transform_batch sps st
                  = (Inr (), st\<lparr>logged := logged st @ msgs\<rparr>)
               \<and> length msgs = length sps"
  using assms
proof (induction sps arbitrary: st)
  case Nil
  then show ?case by simp
next
  case (Cons sp sps)
  let ?m = "name (output_property self) @ '' already exists for '' @ sp
              @ '', skipping transformation''"
  let ?st = "st\<lparr>logged := logged st @ [?m]\<rparr>"
  have "\<forall>x \<in> set sps. check_existence ?st (os_path_join x (name (output_property self)))"
    using Cons.prems by simp
  from Cons.IH [OF this] obtain msgs where
    run: "run_species self expt capacity transform_batch sps ?st
            = (Inr (), ?st\<lparr>logged := logged ?st @ msgs\<rparr>)"
    and len: "length msgs = length sps"
    by blast
  have "run_species self expt capacity transform_batch (sp # sps) st
          = (Inr (), st\<lparr>logged := logged st @ (?m # msgs)\<rparr>)"
    using Cons.prems run by simp
  with len show ?case
    by (intro exI [of _ "?m # msgs"]) simp
qed

text \<open>
  Claim C2. A species whose output dataset exists (at the path \<^verbatim>\<open>run_transformation\<close>
  checks) is logged and skipped, and the loop goes on with the next species. A run over
  species that all have their output returns normally with one message logged for each,
  and leaves the store, the calls made and the offset as they were: no dataset is added
  or resized and nothing is written. The same holds when the run is repeated on the state
  it left.
\<close>

theorem existing_output_skipped:
  assumes "\<forall>sp \<in> set sps. check_existence st (os_path_join sp (name (output_property self)))"
  shows "(\<exists>msgs. run_transformation self expt capacity transform_batch (Some sps) st
                   = (Inr (), st\<lparr>logged := logged st @ msgs\<rparr>)
                \<and> length msgs = length sps)
       \<and> calls (snd (run_transformation self expt capacity transform_batch (Some sps) st))
           = calls st
       \<and> database (snd (run_transformation self expt capacity transform_batch (Some sps) st))
           = database st
       \<and> calls (snd (run_transformation self expt capacity transform_batch (Some sps)
                  (snd (run_transformation self expt capacity transform_batch (Some sps) st))))
           = calls st
       \<and> (\<forall>sp rest. sp \<in> set sps \<longrightarrow>
            run_species self expt capacity transform_batch (sp # rest) st
              = run_species self expt capacity transform_batch rest
                  (st\<lparr>logged := logged st @
                        [name (output_property self) @ '' already exists for '' @ sp
                         @ '', skipping transformation'']\<rparr>))"
proof -
  from run_species_all_existing [OF assms] obtain msgs where
    run: "run_species self expt capacity transform_batch sps st
            = (Inr (), st\<lparr>logged := logged st @ msgs\<rparr>)"
    and len: "length msgs = length sps"
    by blast
  let ?st = "st\<lparr>logged := logged st @ msgs\<rparr>"
  have "\<forall>sp \<in> set sps. check_existence ?st (os_path_join sp (name (output_property self)))"
    using assms by simp
  from run_species_all_existing [OF this] obtain msgs' where
    again: "run_species self expt capacity transform_batch sps ?st
              = (Inr (), ?st\<lparr>logged := logged ?st @ msgs'\<rparr>)"
    by blast
  have first: "\<exists>msgs. run_transformation self expt capacity transform_batch (Some sps) st
                   = (Inr (), st\<lparr>logged := logged st @ msgs\<rparr>)
                \<and> length msgs = length sps"
    using run len by (intro exI [of _ msgs]) (simp add: run_transformation_def)
  have rest: "calls (snd (run_transformation self expt capacity transform_batch (Some sps) st))
           = calls st
       \<and> database (snd (run_transformation self expt capacity transform_batch (Some sps) st))
           = database st
       \<and> calls (snd (run_transformation self expt capacity transform_batch (Some sps)
                  (snd (run_transformation self expt capacity transform_batch (Some sps) st))))
           = calls st"
    using run again by (simp add: run_transformation_def)
  have step: "\<forall>sp rest. sp \<in> set sps \<longrightarrow>
            run_species self expt capacity transform_batch (sp # rest) st
              = run_species self expt capacity transform_batch rest
                  (st\<lparr>logged := logged st @
                        [name (output_property self) @ '' already exists for '' @ sp
                         @ '', skipping transformation'']\<rparr>)"
    using assms by simp
  from first rest step show ?thesis by blast
qed

text \<open>The theorem for the two species of the example, both with their output.\<close>

theorem existing_output_skipped_witness:
  "run_transformation (momentum None) salt 2 copy_positions (Some [''Na'', ''Cl''])
     (initial_state (positions_store(''Na/Momentum'' \<mapsto> zeros [2, 5, 3],
                                     ''Cl/Momentum'' \<mapsto> zeros [1, 5, 3])))
   = (Inr (),
      (initial_state (positions_store(''Na/Momentum'' \<mapsto> zeros [2, 5, 3],
                                      ''Cl/Momentum'' \<mapsto> zeros [1, 5, 3])))
        \<lparr>logged := [''Momentum already exists for Na, skipping transformation'',
                    ''Momentum already exists for Cl, skipping transformation'']\<rparr>)"
  using existing_output_skipped
          [of "[''Na'', ''Cl'']"
              "initial_state (positions_store(''Na/Momentum'' \<mapsto> zeros [2, 5, 3],
                                              ''Cl/Momentum'' \<mapsto> zeros [1, 5, 3]))"
              "momentum None" salt 2 copy_positions]
  by (simp add: run_transformation_def check_existence_def os_path_join_def momentum_def
                initial_state_def)

text \<open>
  Claim C1 fails on the code. In the store below the species \<^verbatim>\<open>Cl\<close> has its output dataset
  with two configurations (\<open>L = 2\<close>) and the experiment has five (\<open>N = 5\<close>). The run of
  \<^verbatim>\<open>run_transformation\<close> returns normally, but the offset is not 2, no call is made on the
  store (the dataset is not resized, the configurations 2 to 4 are not written) and the
  dataset keeps its two configurations: the guard that skips a species whose output
  exists comes before \<^verbatim>\<open>_prepare_database_entry\<close>, whose extension branch is what the
  docstrings of \<^verbatim>\<open>_run_dataset_check\<close> and \<^verbatim>\<open>_prepare_database_entry\<close> describe. That branch,
  called on its own at the same store, takes the first component of the shape as the old
  length, which is the number of particles (1), not the number of configurations (2):
  the offset becomes 1 and four more configurations are asked for, where the claim has
  the offset 2 and three more.
\<close>

theorem rerun_does_not_extend:
  "(fst (run_transformation (momentum None) salt 2 copy_positions (Some [''Cl''])
          (initial_state (positions_store(''Cl/Momentum'' \<mapsto> ramp [1, 2, 3])))) = Inr ()
    \<and> offset (snd (run_transformation (momentum None) salt 2 copy_positions (Some [''Cl''])
          (initial_state (positions_store(''Cl/Momentum'' \<mapsto> ramp [1, 2, 3]))))) \<noteq> 2
    \<and> calls (snd (run_transformation (momentum None) salt 2 copy_positions (Some [''Cl''])
          (initial_state (positions_store(''Cl/Momentum'' \<mapsto> ramp [1, 2, 3]))))) = []
    \<and> map_option np_shape
        (database (snd (run_transformation (momentum None) salt 2 copy_positions (Some [''Cl''])
           (initial_state (positions_store(''Cl/Momentum'' \<mapsto> ramp [1, 2, 3])))))
           ''Cl/Momentum'') = Some [1, 2, 3])
   \<and> (fst (prepare_database_entry (momentum None) salt ''Cl''
             (initial_state (positions_store(''Cl/Momentum'' \<mapsto> ramp [1, 2, 3]))))
         = Inr (momentum_structure ''Cl'' 1)
       \<and> offset (snd (prepare_database_entry (momentum None) salt ''Cl''
             (initial_state (positions_store(''Cl/Momentum'' \<mapsto> ramp [1, 2, 3]))))) = 1
       \<and> calls (snd (prepare_database_entry (momentum None) salt ''Cl''
             (initial_state (positions_store(''Cl/Momentum'' \<mapsto> ramp [1, 2, 3])))))
           = [ResizeDataset ''Cl/Momentum'' (1, 4, 3)])"
proof (rule conjI)
  show "fst (run_transformation (momentum None) salt 2 copy_positions (Some [''Cl''])
          (initial_state (positions_store(''Cl/Momentum'' \<mapsto> ramp [1, 2, 3])))) = Inr ()
    \<and> offset (snd (run_transformation (momentum None) salt 2 copy_positions (Some [''Cl''])
          (initial_state (positions_store(''Cl/Momentum'' \<mapsto> ramp [1, 2, 3]))))) \<noteq> 2
    \<and> calls (snd (run_transformation (momentum None) salt 2 copy_positions (Some [''Cl''])
          (initial_state (positions_store(''Cl/Momentum'' \<mapsto> ramp [1, 2, 3]))))) = []
    \<and> map_option np_shape
        (database (snd (run_transformation (momentum None) salt 2 copy_positions (Some [''Cl''])
           (initial_state (positions_store(''Cl/Momentum'' \<mapsto> ramp [1, 2, 3])))))
           ''Cl/Momentum'') = Some [1, 2, 3]"
    by (simp add: run_transformation_def check_existence_def os_path_join_def momentum_def
                  initial_state_def ramp_def)
next
  show "fst (prepare_database_entry (momentum None) salt ''Cl''
             (initial_state (positions_store(''Cl/Momentum'' \<mapsto> ramp [1, 2, 3]))))
         = Inr (momentum_structure ''Cl'' 1)
       \<and> offset (snd (prepare_database_entry (momentum None) salt ''Cl''
             (initial_state (positions_store(''Cl/Momentum'' \<mapsto> ramp [1, 2, 3]))))) = 1
       \<and> calls (snd (prepare_database_entry (momentum None) salt ''Cl''
             (initial_state (positions_store(''Cl/Momentum'' \<mapsto> ramp [1, 2, 3])))))
           = [ResizeDataset ''Cl/Momentum'' (1, 4, 3)]"
    by (simp add: prepare_database_entry_def salt_def momentum_def join_path_def
                  run_dataset_check_def check_existence_def get_data_size_def
                  resize_dataset_def initial_state_def ramp_def momentum_structure_def
                  Let_def upt_rec numeral_3_eq_3 numeral_2_eq_2)
qed


section \<open>Properties of the batch loop\<close>

lemma add_data_calls_append [simp]:
  "add_data_calls (xs @ ys) = add_data_calls xs @ add_data_calls ys"
  by (induction xs rule: add_data_calls.induct) simp_all

lemma write_entry_not_OSError: "write_entry s e db \<noteq> Inl OSError"
  by (auto simp add: write_entry_def Let_def split: prod.splits option.splits list.splits if_splits)

lemma write_entries_not_OSError: "write_entries s es db \<noteq> Inl OSError"
  by (induction es arbitrary: db) (auto simp add: write_entry_not_OSError split: sum.splits)

lemma add_data_frame:
  "offset (snd (add_data c s st)) = offset st
   \<and> batch_size (snd (add_data c s st)) = batch_size st
   \<and> calls (snd (add_data c s st)) = calls st @ [AddData c s]
   \<and> io_faults (snd (add_data c s st)) = tl (io_faults st)"
  by (simp add: add_data_def Let_def split: list.splits option.splits sum.splits)

lemma add_data_no_fault:
  "io_faults st = [] \<Longrightarrow> fst (add_data c s st) \<noteq> Inl OSError"
  using write_entries_not_OSError [of s "entries c" "database st"]
  by (auto simp add: add_data_def Let_def split: sum.splits)

lemma save_output_no_chunk:
  "save_output_chunk data ods = Inl e \<Longrightarrow> save_output data index ods st = (Inl e, st)"
  by (simp add: save_output_def)

lemma save_output_direct:
  assumes "save_output_chunk data ods = Inr c"
      and "fst (add_data c (index + offset st) st) \<noteq> Inl OSError"
  shows "save_output data index ods st = add_data c (index + offset st) st"
proof -
  obtain a st1 where r: "add_data c (index + offset st) st = (a, st1)"
    by (cases "add_data c (index + offset st) st")
  with assms(2) have "a \<noteq> Inl OSError" by simp
  then show ?thesis
    using assms(1) r by (simp add: save_output_def split: sum.splits py_error.splits)
qed

lemma save_output_retry:
  assumes "save_output_chunk data ods = Inr c"
      and "fst (add_data c (index + offset st) st) = Inl OSError"
  shows "save_output data index ods st
           = add_data c (index + offset st)
               ((snd (add_data c (index + offset st) st))
                  \<lparr>calls := calls (snd (add_data c (index + offset st) st)) @ [Sleep 0.5]\<rparr>)"
proof -
  obtain a st1 where r: "add_data c (index + offset st) st = (a, st1)"
    by (cases "add_data c (index + offset st) st")
  with assms(2) have a: "a = Inl OSError" by simp
  have "offset st1 = offset st"
    using add_data_frame [of c "index + offset st" st] r by simp
  then show ?thesis
    using assms(1) r a by (simp add: save_output_def Let_def)
qed

lemma save_output_frame:
  "offset (snd (save_output data index ods st)) = offset st
   \<and> batch_size (snd (save_output data index ods st)) = batch_size st
   \<and> (\<exists>ws. calls (snd (save_output data index ods st)) = calls st @ ws
          \<and> (\<forall>(c, s) \<in> set (add_data_calls ws). s = index + offset st))"
proof (cases "save_output_chunk data ods")
  case (Inl e)
  then show ?thesis by (simp add: save_output_no_chunk)
next
  case (Inr c)
  let ?s = "index + offset st"
  show ?thesis
  proof (cases "fst (add_data c ?s st) = Inl OSError")
    case False
    from save_output_direct [OF Inr False] add_data_frame [of c ?s st]
    show ?thesis by simp
  next
    case True
    let ?st2 = "(snd (add_data c ?s st))\<lparr>calls := calls (snd (add_data c ?s st)) @ [Sleep 0.5]\<rparr>"
    from save_output_retry [OF Inr True] add_data_frame [of c ?s st]
         add_data_frame [of c ?s ?st2]
    show ?thesis by simp
  qed
qed

lemma save_output_written:
  assumes "save_output data index ods st = (Inr (), st')" and "io_faults st = []"
  shows "\<exists>c. save_output_chunk data ods = Inr c
            \<and> calls st' = calls st @ [AddData c (index + offset st)]
            \<and> offset st' = offset st \<and> batch_size st' = batch_size st \<and> io_faults st' = []"
proof (cases "save_output_chunk data ods")
  case (Inl e)
  with assms(1) show ?thesis by (simp add: save_output_no_chunk)
next
  case (Inr c)
  from save_output_direct [OF Inr add_data_no_fault [OF assms(2)]]
  have "add_data c (index + offset st) st = (Inr (), st')"
    using assms(1) by simp
  with add_data_frame [of c "index + offset st" st] assms(2) Inr
  show ?thesis by simp
qed


lemma batch_loop_frame:
  "offset (snd (batch_loop tb ods paths idxs st)) = offset st
   \<and> batch_size (snd (batch_loop tb ods paths idxs st)) = batch_size st
   \<and> (\<exists>ws. calls (snd (batch_loop tb ods paths idxs st)) = calls st @ ws
          \<and> (\<forall>(c, s) \<in> set (add_data_calls ws).
                \<exists>(i, rng) \<in> set idxs. s = int i * batch_size st + offset st))"
proof (induction idxs arbitrary: st)
  case Nil
  then show ?case by simp
next
  case (Cons ir rest)
  obtain i rng where ir: "ir = (i, rng)" by (cases ir)
  show ?case
  proof (cases "read_batch st paths rng")
    case (Inl e)
    then show ?thesis by (simp add: ir)
  next
    case batch: (Inr batch_dict)
    show ?thesis
    proof (cases "tb (batch_dict_wo_species batch_dict)")
      case (Inl e)
      then show ?thesis by (simp add: ir batch)
    next
      case data: (Inr d)
      obtain a st1 where so: "save_output d (int i * batch_size st) ods st = (a, st1)"
        by (cases "save_output d (int i * batch_size st) ods st")
      from save_output_frame [of d "int i * batch_size st" ods st] so
      obtain ws where f1: "offset st1 = offset st" "batch_size st1 = batch_size st"
        "calls st1 = calls st @ ws"
        "\<forall>(c, s) \<in> set (add_data_calls ws). s = int i * batch_size st + offset st"
        by auto
      show ?thesis
      proof (cases a)
        case (Inl e)
        then show ?thesis using f1 by (simp add: ir batch data so) blast
      next
        case (Inr u)
        from Cons.IH [of st1] f1
        obtain ws' where f2: "offset (snd (batch_loop tb ods paths rest st1)) = offset st"
          "batch_size (snd (batch_loop tb ods paths rest st1)) = batch_size st"
          "calls (snd (batch_loop tb ods paths rest st1)) = calls st @ ws @ ws'"
          "\<forall>(c, s) \<in> set (add_data_calls ws').
              \<exists>(i, rng) \<in> set rest. s = int i * batch_size st + offset st"
          by auto
        have run: "batch_loop tb ods paths (ir # rest) st = batch_loop tb ods paths rest st1"
          by (simp add: ir batch data so Inr)
        have "\<forall>(c, s) \<in> set (add_data_calls (ws @ ws')).
                \<exists>(i, rng) \<in> set (ir # rest). s = int i * batch_size st + offset st"
          using f1(4) f2(4) by (auto simp add: ir)
        with f2 show ?thesis unfolding run by blast
      qed
    qed
  qed
qed

lemma batch_loop_writes:
  assumes "batch_loop tb ods paths idxs st = (Inr (), st')" and "io_faults st = []"
  shows "\<exists>ws. calls st' = calls st @ ws \<and> length ws = length idxs
           \<and> (\<forall>k<length idxs. \<exists>batch data c.
                 read_batch (snd (batch_loop tb ods paths (take k idxs) st)) paths
                            (snd (idxs ! k)) = Inr batch
               \<and> tb (batch_dict_wo_species batch) = Inr data
               \<and> save_output_chunk data ods = Inr c
               \<and> ws ! k = AddData c (int (fst (idxs ! k)) * batch_size st + offset st))"
  using assms
proof (induction idxs arbitrary: st)
  case Nil
  then show ?case by simp
next
  case (Cons ir rest)
  obtain i rng where ir: "ir = (i, rng)" by (cases ir)
  from Cons.prems(1) obtain batch_dict where batch: "read_batch st paths rng = Inr batch_dict"
    by (cases "read_batch st paths rng") (simp_all add: ir)
  from Cons.prems(1) obtain d where data: "tb (batch_dict_wo_species batch_dict) = Inr d"
    by (cases "tb (batch_dict_wo_species batch_dict)") (simp_all add: ir batch)
  obtain a st1 where so: "save_output d (int i * batch_size st) ods st = (a, st1)"
    by (cases "save_output d (int i * batch_size st) ods st")
  from Cons.prems(1) have a: "a = Inr ()"
    by (cases a) (simp_all add: ir batch data so)
  have step: "\<And>l. batch_loop tb ods paths (ir # l) st = batch_loop tb ods paths l st1"
    by (simp add: ir batch data so a)
  from Cons.prems(1) have rest: "batch_loop tb ods paths rest st1 = (Inr (), st')"
    by (simp add: step)
  from save_output_written [OF so [unfolded a] Cons.prems(2)]
  obtain c where c: "save_output_chunk d ods = Inr c"
    "calls st1 = calls st @ [AddData c (int i * batch_size st + offset st)]"
    "offset st1 = offset st" "batch_size st1 = batch_size st" "io_faults st1 = []"
    by blast
  from Cons.IH [OF rest c(5)] obtain ws where ws: "calls st' = calls st1 @ ws"
    "length ws = length rest"
    "\<forall>k<length rest. \<exists>batch data c.
         read_batch (snd (batch_loop tb ods paths (take k rest) st1)) paths
                    (snd (rest ! k)) = Inr batch
       \<and> tb (batch_dict_wo_species batch) = Inr data
       \<and> save_output_chunk data ods = Inr c
       \<and> ws ! k = AddData c (int (fst (rest ! k)) * batch_size st1 + offset st1)"
    by blast
  let ?ws = "AddData c (int i * batch_size st + offset st) # ws"
  have each: "\<exists>batch data c.
         read_batch (snd (batch_loop tb ods paths (take k (ir # rest)) st)) paths
                    (snd ((ir # rest) ! k)) = Inr batch
       \<and> tb (batch_dict_wo_species batch) = Inr data
       \<and> save_output_chunk data ods = Inr c
       \<and> ?ws ! k = AddData c (int (fst ((ir # rest) ! k)) * batch_size st + offset st)"
    if "k < length (ir # rest)" for k
  proof (cases k)
    case 0
    then show ?thesis using batch data c(1) by (simp add: ir)
  next
    case (Suc j)
    with that have "j < length rest" by simp
    with ws(3) show ?thesis by (simp add: Suc step c(3) c(4))
  qed
  have "calls st' = calls st @ ?ws \<and> length ?ws = length (ir # rest)"
    using ws(1) ws(2) c(2) by simp
  with each show ?case by blast
qed

lemma prepare_monitors_frame:
  "offset (prepare_monitors capacity expt st) = offset st
   \<and> calls (prepare_monitors capacity expt st) = calls st
   \<and> io_faults (prepare_monitors capacity expt st) = io_faults st"
  by (simp add: prepare_monitors_def get_batch_size_def Let_def)

lemma prepare_database_entry_faults:
  "io_faults (snd (prepare_database_entry self expt sp st)) = io_faults st"
  by (simp add: prepare_database_entry_def add_dataset_def resize_dataset_def Let_def
           split: option.splits sum.splits list.splits prod.splits if_splits)


lemma enumerate_fst_nth: "k < length xs \<Longrightarrow> fst (enumerate 0 xs ! k) = k"
  by (simp add: nth_enumerate_eq)

lemma save_output_chunk_entry:
  assumes "save_output_chunk data ods = Inr c"
  shows "\<exists>sp pr. entries c
                   = [((sp, pr), 0,
                       np_swapaxes (if length (np_shape data) = 2 then np_newaxis data
                                    else data))]
               \<and> join_path sp pr = output_dataset ods"
  using assms
  by (auto simp: save_output_chunk_def output_dataset_def chunk_add_data_def
                 TrajectoryChunkData_def Let_def
           split: list.splits prod.splits if_splits sum.splits option.splits index_spec.splits)

lemma swap01_three: "swap01 xs = [b, p, d] \<Longrightarrow> xs = [p, b, d]"
  by (cases xs rule: swap01.cases) auto

lemma write_one_entry:
  assumes "write_entries s [((sp, pr), 0, np_swapaxes a)] db = Inr db'"
  shows "\<exists>p b d ds ds'. np_shape a = [p, b, d] \<and> 0 \<le> s
           \<and> db (join_path sp pr) = Some ds \<and> db' (join_path sp pr) = Some ds'
           \<and> (\<forall>q t k. t < b \<longrightarrow> elem ds' [q, nat s + t, k] = elem a [q, t, k])
           \<and> (\<forall>q c k. c < nat s \<longrightarrow> elem ds' [q, c, k] = elem ds [q, c, k])"
proof -
  from assms obtain ds p n d b p' d' where
    ds: "db (join_path sp pr) = Some ds" and
    sh: "np_shape ds = [p, n, d]" "np_shape (np_swapaxes a) = [b, p', d']" and
    ok: "p' = p" "d' = d" "0 \<le> s" "nat s + b \<le> n" and
    db': "db' = db(join_path sp pr \<mapsto>
                 NDArray [p, n, d]
                   (\<lambda>idx. case idx of
                        [i, c, k] \<Rightarrow>
                          if nat s \<le> c \<and> c < nat s + b
                          then elem (np_swapaxes a) [c - nat s, i, k]
                          else elem ds idx
                      | _ \<Rightarrow> elem ds idx))"
    by (auto simp: write_entry_def Let_def
             split: option.splits list.splits if_splits sum.splits)
  from sh(2) have a: "np_shape a = [p', b, d']"
    by (simp add: np_swapaxes_def swap01_three)
  show ?thesis
    using ds a ok(3) by (simp add: db' np_swapaxes_def)
qed


lemma add_data_stored:
  assumes "add_data c s st = (Inr (), st')"
  shows "write_entries s (entries c) (database st) = Inr (database st')"
  using assms
  by (auto simp add: add_data_def Let_def split: list.splits option.splits sum.splits)

lemma save_output_stored:
  assumes run: "save_output data index ods st = (Inr (), st')" and nf: "io_faults st = []"
  shows "\<exists>p b d ds ds'.
           np_shape (if length (np_shape data) = 2 then np_newaxis data else data) = [p, b, d]
         \<and> 0 \<le> index + offset st
         \<and> database st (output_dataset ods) = Some ds
         \<and> database st' (output_dataset ods) = Some ds'
         \<and> (\<forall>q t k. t < b \<longrightarrow>
               elem ds' [q, nat (index + offset st) + t, k]
                 = elem (if length (np_shape data) = 2 then np_newaxis data else data) [q, t, k])
         \<and> (\<forall>q c k. c < nat (index + offset st) \<longrightarrow> elem ds' [q, c, k] = elem ds [q, c, k])"
proof -
  let ?a = "if length (np_shape data) = 2 then np_newaxis data else data"
  from run obtain c where c: "save_output_chunk data ods = Inr c"
    by (cases "save_output_chunk data ods") (simp_all add: save_output_no_chunk)
  from save_output_direct [OF c add_data_no_fault [OF nf]] run
  have "add_data c (index + offset st) st = (Inr (), st')" by simp
  from add_data_stored [OF this]
  have w: "write_entries (index + offset st) (entries c) (database st) = Inr (database st')" .
  from save_output_chunk_entry [OF c] obtain sp pr where
    e: "entries c = [((sp, pr), 0, np_swapaxes ?a)]" and
    out: "join_path sp pr = output_dataset ods"
    by blast
  from write_one_entry [OF w [unfolded e]] show ?thesis
    unfolding out by blast
qed

lemma batch_loop_below:
  assumes "batch_loop tb ods paths (enumerate m rs) st = (Inr (), st')"
      and "io_faults st = []" and "0 \<le> batch_size st"
      and "database st (output_dataset ods) = Some ds"
  shows "\<exists>ds'. database st' (output_dataset ods) = Some ds'
             \<and> (\<forall>q c k. int c < int m * batch_size st + offset st
                   \<longrightarrow> elem ds' [q, c, k] = elem ds [q, c, k])"
  using assms
proof (induction rs arbitrary: m st ds)
  case Nil
  then show ?case by simp
next
  case (Cons r rs)
  let ?bs = "batch_size st" and ?off = "offset st"
  have enum: "enumerate m (r # rs) = (m, r) # enumerate (Suc m) rs" by simp
  from Cons.prems(1) obtain batch_dict where batch: "read_batch st paths r = Inr batch_dict"
    by (cases "read_batch st paths r") (simp_all add: enum)
  from Cons.prems(1) obtain dat where data: "tb (batch_dict_wo_species batch_dict) = Inr dat"
    by (cases "tb (batch_dict_wo_species batch_dict)") (simp_all add: enum batch)
  obtain a st1 where so: "save_output dat (int m * ?bs) ods st = (a, st1)"
    by (cases "save_output dat (int m * ?bs) ods st")
  from Cons.prems(1) have a: "a = Inr ()"
    by (cases a) (simp_all add: enum batch data so)
  from Cons.prems(1) have rest: "batch_loop tb ods paths (enumerate (Suc m) rs) st1 = (Inr (), st')"
    by (simp add: enum batch data so a)
  from save_output_written [OF so [unfolded a] Cons.prems(2)]
  have keep: "offset st1 = ?off" "batch_size st1 = ?bs" "io_faults st1 = []"
    by blast+
  from save_output_stored [OF so [unfolded a] Cons.prems(2)] Cons.prems(4)
  obtain ds1 where s: "0 \<le> int m * ?bs + ?off"
    "database st1 (output_dataset ods) = Some ds1"
    "\<forall>q c k. c < nat (int m * ?bs + ?off) \<longrightarrow> elem ds1 [q, c, k] = elem ds [q, c, k]"
    by auto
  from Cons.IH [OF rest keep(3) _ s(2)] Cons.prems(3) keep
  obtain ds' where f: "database st' (output_dataset ods) = Some ds'"
    "\<forall>q c k. int c < int (Suc m) * ?bs + ?off \<longrightarrow> elem ds' [q, c, k] = elem ds1 [q, c, k]"
    by auto
  have "elem ds' [q, c, k] = elem ds [q, c, k]" if c: "int c < int m * ?bs + ?off" for q c k
  proof -
    have "int m * ?bs \<le> int (Suc m) * ?bs"
      using Cons.prems(3) by (simp add: algebra_simps)
    with c have "int c < int (Suc m) * ?bs + ?off" by simp
    with f(2) have "elem ds' [q, c, k] = elem ds1 [q, c, k]" by blast
    moreover from c s(1) have "c < nat (int m * ?bs + ?off)" by simp
    ultimately show ?thesis using s(3) by simp
  qed
  with f(1) show ?case by blast
qed


lemma batch_loop_stores:
  assumes "batch_loop tb ods paths (enumerate m rs) st = (Inr (), st')"
      and "io_faults st = []" and "0 \<le> batch_size st"
  shows "\<forall>j<length rs. \<exists>batch data p b d.
           read_batch (snd (batch_loop tb ods paths (take j (enumerate m rs)) st)) paths (rs ! j)
             = Inr batch
         \<and> tb (batch_dict_wo_species batch) = Inr data
         \<and> np_shape (if length (np_shape data) = 2 then np_newaxis data else data) = [p, b, d]
         \<and> 0 \<le> int (m + j) * batch_size st + offset st
         \<and> (\<exists>ds. database (snd (batch_loop tb ods paths (take (Suc j) (enumerate m rs)) st))
                     (output_dataset ods) = Some ds
                \<and> (\<forall>q t k. t < b \<longrightarrow>
                      elem ds [q, nat (int (m + j) * batch_size st + offset st) + t, k]
                        = elem (if length (np_shape data) = 2 then np_newaxis data else data)
                               [q, t, k]))
         \<and> (int b \<le> batch_size st \<longrightarrow>
              (\<exists>ds. database st' (output_dataset ods) = Some ds
                \<and> (\<forall>q t k. t < b \<longrightarrow>
                      elem ds [q, nat (int (m + j) * batch_size st + offset st) + t, k]
                        = elem (if length (np_shape data) = 2 then np_newaxis data else data)
                               [q, t, k])))"
  using assms
proof (induction rs arbitrary: m st)
  case Nil
  then show ?case by simp
next
  case (Cons r rs)
  let ?bs = "batch_size st" and ?off = "offset st"
  let ?s = "int m * ?bs + ?off"
  have enum: "enumerate m (r # rs) = (m, r) # enumerate (Suc m) rs" by simp
  from Cons.prems(1) obtain batch_dict where batch: "read_batch st paths r = Inr batch_dict"
    by (cases "read_batch st paths r") (simp_all add: enum)
  from Cons.prems(1) obtain dat where data: "tb (batch_dict_wo_species batch_dict) = Inr dat"
    by (cases "tb (batch_dict_wo_species batch_dict)") (simp_all add: enum batch)
  let ?a = "if length (np_shape dat) = 2 then np_newaxis dat else dat"
  obtain a st1 where so: "save_output dat (int m * ?bs) ods st = (a, st1)"
    by (cases "save_output dat (int m * ?bs) ods st")
  from Cons.prems(1) have a: "a = Inr ()"
    by (cases a) (simp_all add: enum batch data so)
  have step: "\<And>l. batch_loop tb ods paths ((m, r) # l) st = batch_loop tb ods paths l st1"
    by (simp add: batch data so a)
  from Cons.prems(1) have rest: "batch_loop tb ods paths (enumerate (Suc m) rs) st1 = (Inr (), st')"
    by (simp add: enum batch data so a)
  from save_output_written [OF so [unfolded a] Cons.prems(2)]
  have keep: "offset st1 = ?off" "batch_size st1 = ?bs" "io_faults st1 = []"
    by blast+
  from save_output_stored [OF so [unfolded a] Cons.prems(2)]
  obtain p b d ds1 where s: "np_shape ?a = [p, b, d]" "0 \<le> ?s"
    "database st1 (output_dataset ods) = Some ds1"
    "\<forall>q t k. t < b \<longrightarrow> elem ds1 [q, nat ?s + t, k] = elem ?a [q, t, k]"
    by auto
  have bs1: "0 \<le> batch_size st1" using Cons.prems(3) keep by simp
  note IH = Cons.IH [OF rest keep(3) bs1, unfolded keep]
  show ?case
  proof (intro allI impI)
    fix j assume j: "j < length (r # rs)"
    show "\<exists>batch data p b d.
           read_batch (snd (batch_loop tb ods paths (take j (enumerate m (r # rs))) st)) paths
                      ((r # rs) ! j) = Inr batch
         \<and> tb (batch_dict_wo_species batch) = Inr data
         \<and> np_shape (if length (np_shape data) = 2 then np_newaxis data else data) = [p, b, d]
         \<and> 0 \<le> int (m + j) * ?bs + ?off
         \<and> (\<exists>ds. database (snd (batch_loop tb ods paths (take (Suc j) (enumerate m (r # rs))) st))
                     (output_dataset ods) = Some ds
                \<and> (\<forall>q t k. t < b \<longrightarrow>
                      elem ds [q, nat (int (m + j) * ?bs + ?off) + t, k]
                        = elem (if length (np_shape data) = 2 then np_newaxis data else data)
                               [q, t, k]))
         \<and> (int b \<le> ?bs \<longrightarrow>
              (\<exists>ds. database st' (output_dataset ods) = Some ds
                \<and> (\<forall>q t k. t < b \<longrightarrow>
                      elem ds [q, nat (int (m + j) * ?bs + ?off) + t, k]
                        = elem (if length (np_shape data) = 2 then np_newaxis data else data)
                               [q, t, k])))"
    proof (cases j)
      case 0
      have now: "\<exists>ds. database (snd (batch_loop tb ods paths (take (Suc 0) (enumerate m (r # rs))) st))
                     (output_dataset ods) = Some ds
                \<and> (\<forall>q t k. t < b \<longrightarrow> elem ds [q, nat ?s + t, k] = elem ?a [q, t, k])"
        using s(3) s(4) by (simp add: step del: batch_loop.simps(2))
      have final: "\<exists>ds. database st' (output_dataset ods) = Some ds
                \<and> (\<forall>q t k. t < b \<longrightarrow> elem ds [q, nat ?s + t, k] = elem ?a [q, t, k])"
        if small: "int b \<le> ?bs"
      proof -
        from batch_loop_below [OF rest keep(3) bs1 s(3)] keep
        obtain ds' where f: "database st' (output_dataset ods) = Some ds'"
          "\<forall>q c k. int c < int (Suc m) * ?bs + ?off \<longrightarrow> elem ds' [q, c, k] = elem ds1 [q, c, k]"
          by auto
        have "elem ds' [q, nat ?s + t, k] = elem ?a [q, t, k]" if t: "t < b" for q t k
        proof -
          from t small s(2) have "int (nat ?s + t) < int (Suc m) * ?bs + ?off"
            by (simp add: algebra_simps)
          with f(2) have "elem ds' [q, nat ?s + t, k] = elem ds1 [q, nat ?s + t, k]" by blast
          with s(4) t show ?thesis by simp
        qed
        with f(1) show ?thesis by blast
      qed
      from batch data s(1) s(2) now final show ?thesis
        unfolding 0 by (intro exI [of _ batch_dict] exI [of _ dat] exI [of _ p] exI [of _ b]
                              exI [of _ d]) simp
    next
      case (Suc i)
      with j have i: "i < length rs" by simp
      from IH [rule_format, OF i] show ?thesis
        by (simp add: Suc step del: batch_loop.simps(2))
    qed
  qed
qed


lemma prepare_monitors_batch_size: "1 \<le> batch_size (prepare_monitors capacity expt st)"
  by (simp add: prepare_monitors_def get_batch_size_def Let_def)

lemma prepare_database_entry_structure:
  assumes "fst (prepare_database_entry self expt sp st) = Inr ods"
  shows "\<exists>e. ods = [(join_path sp (name (output_property self)), e)]"
  using assms
  by (auto simp add: prepare_database_entry_def Let_def
           split: option.splits sum.splits list.splits prod.splits if_splits)

lemma output_dataset_plain:
  assumes "CHR ''/'' \<notin> set sp" and "CHR ''/'' \<notin> set nm"
  shows "output_dataset [(join_path sp nm, e)] = join_path sp nm"
proof -
  have "py_split (CHR ''/'') (sp @ CHR ''/'' # nm) = [sp, nm]"
    using assms by (simp add: py_split_append py_split_whole)
  then show ?thesis
    by (simp add: output_dataset_def join_path_def)
qed

text \<open>
  Claim C4. For one species, let \<open>st1\<close> be the state after \<^verbatim>\<open>_prepare_database_entry\<close> (which
  fixes the offset) and \<open>st2\<close> the state after \<^verbatim>\<open>_prepare_monitors\<close> (which fixes the batch
  size). Neither value changes in the batch loop. Every write the loop makes, in a run
  that ends in any way and with any transient faults, starts at \<open>i * batch_size + offset\<close>
  for a batch index \<open>i\<close>. In a run that returns normally without faults there is one
  write for each batch, in order: the write of index \<open>i\<close> carries the chunk made of the
  transformed batch \<open>i\<close>, read in the state the loop had reached, and starts at
  \<open>i * batch_size + offset\<close>, which is not negative. When that write is done, the dataset
  of the output (for names without a slash, the dataset \<^verbatim>\<open><species>/<property>\<close>) holds the
  transformed batch, of \<open>b\<close> configurations, at the configurations from
  \<open>i * batch_size + offset\<close>; and it holds them there when the run has ended, if the
  transformed batch has no more configurations than the batch size, so that no later
  write reaches them.
\<close>

theorem batch_written_at_index:
  assumes prep: "fst (prepare_database_entry self expt sp st) = Inr ods"
      and st1: "st1 = snd (prepare_database_entry self expt sp st)"
      and st2: "st2 = prepare_monitors capacity expt st1"
      and paths: "paths = type_spec_keys self sp"
      and run: "transform_species self expt capacity tb sp st = (r, st')"
  shows "offset st2 = offset st1 \<and> offset st' = offset st1 \<and> batch_size st' = batch_size st2
       \<and> (CHR ''/'' \<notin> set sp \<and> CHR ''/'' \<notin> set (name (output_property self))
            \<longrightarrow> output_dataset ods = join_path sp (name (output_property self)))
       \<and> (\<exists>ws. calls st' = calls st1 @ ws
            \<and> (\<forall>(c, s) \<in> set (add_data_calls ws).
                  \<exists>i<length (batch_ranges st2). s = int i * batch_size st2 + offset st1)
            \<and> (r = Inr () \<and> io_faults st = [] \<longrightarrow>
                 length ws = length (batch_ranges st2)
               \<and> (\<forall>i<length (batch_ranges st2). \<exists>batch data c a p b d.
                     read_batch
                       (snd (batch_loop tb ods paths (take i (enumerate 0 (batch_ranges st2))) st2))
                       paths (batch_ranges st2 ! i) = Inr batch
                   \<and> tb (batch_dict_wo_species batch) = Inr data
                   \<and> save_output_chunk data ods = Inr c
                   \<and> ws ! i = AddData c (int i * batch_size st2 + offset st1)
                   \<and> 0 \<le> int i * batch_size st2 + offset st1
                   \<and> a = (if length (np_shape data) = 2 then np_newaxis data else data)
                   \<and> np_shape a = [p, b, d]
                   \<and> (\<exists>ds. database
                               (snd (batch_loop tb ods paths
                                       (take (Suc i) (enumerate 0 (batch_ranges st2))) st2))
                               (output_dataset ods) = Some ds
                          \<and> (\<forall>q t k. t < b \<longrightarrow>
                                elem ds [q, nat (int i * batch_size st2 + offset st1) + t, k]
                                  = elem a [q, t, k]))
                   \<and> (int b \<le> batch_size st2 \<longrightarrow>
                        (\<exists>ds. database st' (output_dataset ods) = Some ds
                          \<and> (\<forall>q t k. t < b \<longrightarrow>
                                elem ds [q, nat (int i * batch_size st2 + offset st1) + t, k]
                                  = elem a [q, t, k]))))))"
proof -
  let ?rs = "batch_ranges st2"
  let ?idxs = "enumerate 0 ?rs"
  let ?S = "\<lambda>i. snd (batch_loop tb ods paths (take i ?idxs) st2)"
  have pde: "prepare_database_entry self expt sp st = (Inr ods, st1)"
    using prep st1 by (cases "prepare_database_entry self expt sp st") simp
  have loop: "batch_loop tb ods paths ?idxs st2 = (r, st')"
    using run by (simp add: transform_species_def pde Let_def st2 paths)
  have off2: "offset st2 = offset st1" and calls2: "calls st2 = calls st1"
    and faults2: "io_faults st2 = io_faults st"
    using prepare_monitors_frame [of capacity expt st1]
          prepare_database_entry_faults [of self expt sp st]
    by (simp_all add: st2 st1)
  have bs2: "0 \<le> batch_size st2"
    using prepare_monitors_batch_size [of capacity expt st1] by (simp add: st2)
  have out: "CHR ''/'' \<notin> set sp \<and> CHR ''/'' \<notin> set (name (output_property self))
            \<longrightarrow> output_dataset ods = join_path sp (name (output_property self))"
    using prepare_database_entry_structure [OF prep] output_dataset_plain by blast
  from batch_loop_frame [of tb ods paths ?idxs st2] loop
  obtain ws where fr: "offset st' = offset st2" "batch_size st' = batch_size st2"
    "calls st' = calls st2 @ ws"
    "\<forall>(c, s) \<in> set (add_data_calls ws).
        \<exists>(i, rng) \<in> set ?idxs. s = int i * batch_size st2 + offset st2"
    by auto
  have starts: "\<forall>(c, s) \<in> set (add_data_calls ws).
                  \<exists>i<length ?rs. s = int i * batch_size st2 + offset st1"
  proof (clarify)
    fix c s assume "(c, s) \<in> set (add_data_calls ws)"
    with fr(4) obtain i rng where
      "(i, rng) \<in> set ?idxs" "s = int i * batch_size st2 + offset st2"
      by blast
    then show "\<exists>i<length ?rs. s = int i * batch_size st2 + offset st1"
      by (auto simp add: in_set_enumerate_eq off2)
  qed
  have good: "length ws = length ?rs
               \<and> (\<forall>i<length ?rs. \<exists>batch data c a p b d.
                     read_batch (?S i) paths (?rs ! i) = Inr batch
                   \<and> tb (batch_dict_wo_species batch) = Inr data
                   \<and> save_output_chunk data ods = Inr c
                   \<and> ws ! i = AddData c (int i * batch_size st2 + offset st1)
                   \<and> 0 \<le> int i * batch_size st2 + offset st1
                   \<and> a = (if length (np_shape data) = 2 then np_newaxis data else data)
                   \<and> np_shape a = [p, b, d]
                   \<and> (\<exists>ds. database (?S (Suc i)) (output_dataset ods) = Some ds
                          \<and> (\<forall>q t k. t < b \<longrightarrow>
                                elem ds [q, nat (int i * batch_size st2 + offset st1) + t, k]
                                  = elem a [q, t, k]))
                   \<and> (int b \<le> batch_size st2 \<longrightarrow>
                        (\<exists>ds. database st' (output_dataset ods) = Some ds
                          \<and> (\<forall>q t k. t < b \<longrightarrow>
                                elem ds [q, nat (int i * batch_size st2 + offset st1) + t, k]
                                  = elem a [q, t, k]))))"
    if ok: "r = Inr ()" and nf: "io_faults st = []"
  proof -
    from loop ok have l: "batch_loop tb ods paths ?idxs st2 = (Inr (), st')" by simp
    from nf faults2 have f: "io_faults st2 = []" by simp
    from batch_loop_writes [OF l f] obtain ws' where w:
      "calls st' = calls st2 @ ws'" "length ws' = length ?idxs"
      "\<forall>k<length ?idxs. \<exists>batch data c.
          read_batch (?S k) paths (snd (?idxs ! k)) = Inr batch
        \<and> tb (batch_dict_wo_species batch) = Inr data
        \<and> save_output_chunk data ods = Inr c
        \<and> ws' ! k = AddData c (int (fst (?idxs ! k)) * batch_size st2 + offset st2)"
      by blast
    from w(1) fr(3) have same: "ws' = ws" by simp
    note stores = batch_loop_stores [OF l f bs2, rule_format]
    have each: "\<exists>batch data c a p b d.
                     read_batch (?S i) paths (?rs ! i) = Inr batch
                   \<and> tb (batch_dict_wo_species batch) = Inr data
                   \<and> save_output_chunk data ods = Inr c
                   \<and> ws ! i = AddData c (int i * batch_size st2 + offset st1)
                   \<and> 0 \<le> int i * batch_size st2 + offset st1
                   \<and> a = (if length (np_shape data) = 2 then np_newaxis data else data)
                   \<and> np_shape a = [p, b, d]
                   \<and> (\<exists>ds. database (?S (Suc i)) (output_dataset ods) = Some ds
                          \<and> (\<forall>q t k. t < b \<longrightarrow>
                                elem ds [q, nat (int i * batch_size st2 + offset st1) + t, k]
                                  = elem a [q, t, k]))
                   \<and> (int b \<le> batch_size st2 \<longrightarrow>
                        (\<exists>ds. database st' (output_dataset ods) = Some ds
                          \<and> (\<forall>q t k. t < b \<longrightarrow>
                                elem ds [q, nat (int i * batch_size st2 + offset st1) + t, k]
                                  = elem a [q, t, k])))"
      if i: "i < length ?rs" for i
    proof -
      from w(3) i same obtain batch data c where called:
        "read_batch (?S i) paths (?rs ! i) = Inr batch"
        "tb (batch_dict_wo_species batch) = Inr data"
        "save_output_chunk data ods = Inr c"
        "ws ! i = AddData c (int i * batch_size st2 + offset st1)"
        by (auto simp add: nth_enumerate_eq off2)
      let ?a = "if length (np_shape data) = 2 then np_newaxis data else data"
      from stores [OF i] called(1) called(2) obtain p b d where stored:
        "np_shape ?a = [p, b, d]"
        "0 \<le> int i * batch_size st2 + offset st1"
        "\<exists>ds. database (?S (Suc i)) (output_dataset ods) = Some ds
            \<and> (\<forall>q t k. t < b \<longrightarrow>
                  elem ds [q, nat (int i * batch_size st2 + offset st1) + t, k] = elem ?a [q, t, k])"
        "int b \<le> batch_size st2 \<longrightarrow>
           (\<exists>ds. database st' (output_dataset ods) = Some ds
            \<and> (\<forall>q t k. t < b \<longrightarrow>
                  elem ds [q, nat (int i * batch_size st2 + offset st1) + t, k] = elem ?a [q, t, k]))"
        unfolding off2 by auto
      from called stored show ?thesis by blast
    qed
    from w(2) same have "length ws = length ?rs" by simp
    with each show ?thesis by blast
  qed
  from fr(1) fr(2) fr(3) off2 calls2 starts good out show ?thesis
    by (intro conjI exI [of _ ws]) simp_all
qed


text \<open>
  The theorem for the species \<^verbatim>\<open>Na\<close> of the example, with batches of two configurations
  and a transform that copies the positions: three writes, at the configurations 0, 2
  and 4, and after the run the dataset \<^verbatim>\<open>Na/Momentum\<close> holds at configuration 4 what the
  positions hold there.
\<close>

theorem batch_written_at_index_witness:
  "fst (prepare_database_entry (momentum None) salt ''Na'' (initial_state positions_store))
     = Inr (momentum_structure ''Na'' 2)
   \<and> fst (transform_species (momentum None) salt 2 copy_positions ''Na''
            (initial_state positions_store)) = Inr ()
   \<and> (\<exists>ws. calls (snd (transform_species (momentum None) salt 2 copy_positions ''Na''
                          (initial_state positions_store)))
             = calls (snd (prepare_database_entry (momentum None) salt ''Na''
                             (initial_state positions_store))) @ ws
          \<and> length ws = 3
          \<and> (\<exists>c. ws ! 0 = AddData c 0) \<and> (\<exists>c. ws ! 1 = AddData c 2)
          \<and> (\<exists>c. ws ! 2 = AddData c 4))
   \<and> (\<exists>ds. database (snd (transform_species (momentum None) salt 2 copy_positions ''Na''
                           (initial_state positions_store))) ''Na/Momentum'' = Some ds
          \<and> elem ds [1, 4, 2] = 1142
          \<and> elem (ramp [2, 5, 3]) [1, 4, 2] = 1142)"
proof -
  let ?st = "initial_state positions_store"
  let ?ods = "momentum_structure ''Na'' 2"
  let ?paths = "type_spec_keys (momentum None) ''Na''"
  let ?st1 = "snd (prepare_database_entry (momentum None) salt ''Na'' ?st)"
  let ?st2 = "prepare_monitors 2 salt ?st1"
  let ?run = "transform_species (momentum None) salt 2 copy_positions ''Na'' ?st"
  let ?S = "\<lambda>i. snd (batch_loop copy_positions ?ods ?paths
                         (take i (enumerate 0 (batch_ranges ?st2))) ?st2)"
  have prep: "fst (prepare_database_entry (momentum None) salt ''Na'' ?st) = Inr ?ods"
    by code_simp
  have ok: "fst ?run = Inr ()"
    by code_simp
  have nf: "io_faults ?st = []"
    by (simp add: initial_state_def)
  have br: "batch_ranges ?st2 = [(0, 2), (2, 2), (4, 1)]"
    by code_simp
  have bs: "batch_size ?st2 = 2" and off: "offset ?st1 = 0"
    by code_simp+
  have l3: "length (batch_ranges ?st2) = 3"
    by (simp add: br)
  have last_batch:
    "case read_batch (?S 2) ?paths (batch_ranges ?st2 ! 2) of
       Inl e \<Rightarrow> False
     | Inr batch \<Rightarrow>
         (case copy_positions (batch_dict_wo_species batch) of
            Inl e \<Rightarrow> False
          | Inr data \<Rightarrow> np_shape data = [2, 1, 3] \<and> elem data [1, 0, 2] = 1142)"
    by code_simp
  have ramp: "elem (ramp [2, 5, 3]) [1, 4, 2] = 1142"
    by (simp add: ramp_def)
  have plain: "CHR ''/'' \<notin> set ''Na'' \<and> CHR ''/'' \<notin> set (name (output_property (momentum None)))"
    by (simp add: momentum_def)
  from batch_written_at_index [OF prep refl refl refl surjective_pairing [of ?run]] plain
  obtain ws where out: "output_dataset ?ods = join_path ''Na'' (name (output_property (momentum None)))"
    and ws: "calls (snd ?run) = calls ?st1 @ ws"
    and good: "fst ?run = Inr () \<and> io_faults ?st = [] \<longrightarrow>
       length ws = length (batch_ranges ?st2)
     \<and> (\<forall>i<length (batch_ranges ?st2). \<exists>batch data c a p b d.
           read_batch (?S i) ?paths (batch_ranges ?st2 ! i) = Inr batch
         \<and> copy_positions (batch_dict_wo_species batch) = Inr data
         \<and> save_output_chunk data ?ods = Inr c
         \<and> ws ! i = AddData c (int i * batch_size ?st2 + offset ?st1)
         \<and> 0 \<le> int i * batch_size ?st2 + offset ?st1
         \<and> a = (if length (np_shape data) = 2 then np_newaxis data else data)
         \<and> np_shape a = [p, b, d]
         \<and> (\<exists>ds. database (?S (Suc i)) (output_dataset ?ods) = Some ds
                \<and> (\<forall>q t k. t < b \<longrightarrow>
                      elem ds [q, nat (int i * batch_size ?st2 + offset ?st1) + t, k]
                        = elem a [q, t, k]))
         \<and> (int b \<le> batch_size ?st2 \<longrightarrow>
              (\<exists>ds. database (snd ?run) (output_dataset ?ods) = Some ds
                \<and> (\<forall>q t k. t < b \<longrightarrow>
                      elem ds [q, nat (int i * batch_size ?st2 + offset ?st1) + t, k]
                        = elem a [q, t, k]))))"
    by blast
  from out have path: "output_dataset ?ods = ''Na/Momentum''"
    by (simp add: momentum_def join_path_def)
  from good ok nf have full: "length ws = length (batch_ranges ?st2)"
    and every: "\<forall>i<length (batch_ranges ?st2). \<exists>batch data c a p b d.
           read_batch (?S i) ?paths (batch_ranges ?st2 ! i) = Inr batch
         \<and> copy_positions (batch_dict_wo_species batch) = Inr data
         \<and> ws ! i = AddData c (int i * batch_size ?st2 + offset ?st1)
         \<and> a = (if length (np_shape data) = 2 then np_newaxis data else data)
         \<and> np_shape a = [p, b, d]
         \<and> (int b \<le> batch_size ?st2 \<longrightarrow>
              (\<exists>ds. database (snd ?run) (output_dataset ?ods) = Some ds
                \<and> (\<forall>q t k. t < b \<longrightarrow>
                      elem ds [q, nat (int i * batch_size ?st2 + offset ?st1) + t, k]
                        = elem a [q, t, k])))"
    by blast+
  from full have len: "length ws = 3"
    by (simp add: l3)
  from every have each: "\<exists>c. ws ! i = AddData c (int i * 2 + 0)" if "i < 3" for i
    using that unfolding l3 bs off by blast
  from each [of 0] each [of 1] each [of 2]
  have writes: "(\<exists>c. ws ! 0 = AddData c 0) \<and> (\<exists>c. ws ! 1 = AddData c 2)
          \<and> (\<exists>c. ws ! 2 = AddData c 4)"
    by simp
  from every [unfolded l3, rule_format, of 2] obtain batch data a p b d where third:
    "read_batch (?S 2) ?paths (batch_ranges ?st2 ! 2) = Inr batch"
    "copy_positions (batch_dict_wo_species batch) = Inr data"
    "a = (if length (np_shape data) = 2 then np_newaxis data else data)"
    "np_shape a = [p, b, d]"
    "int b \<le> batch_size ?st2 \<longrightarrow>
       (\<exists>ds. database (snd ?run) (output_dataset ?ods) = Some ds
          \<and> (\<forall>q t k. t < b \<longrightarrow>
                elem ds [q, nat (int 2 * batch_size ?st2 + offset ?st1) + t, k] = elem a [q, t, k]))"
    by auto
  from last_batch third(1) third(2)
  have data: "np_shape data = [2, 1, 3]" "elem data [1, 0, 2] = 1142"
    by simp_all
  from third(3) data(1) have a: "a = data" by simp
  from third(4) a data(1) have b: "b = 1" by simp
  from third(5) obtain ds where ds: "database (snd ?run) ''Na/Momentum'' = Some ds"
    "\<forall>q t k. t < b \<longrightarrow> elem ds [q, nat (int 2 * 2 + 0) + t, k] = elem a [q, t, k]"
    unfolding bs off path b by auto
  from ds(2) [rule_format, of 0 1 2] data(2) have "elem ds [1, 4, 2] = 1142"
    by (simp add: a b)
  with ds(1) ramp have stored: "\<exists>ds. database (snd ?run) ''Na/Momentum'' = Some ds
          \<and> elem ds [1, 4, 2] = 1142 \<and> elem (ramp [2, 5, 3]) [1, 4, 2] = 1142"
    by blast
  from prep ok ws len writes stored show ?thesis by blast
qed


section \<open>Properties of the keys given to the batch transform\<close>

lemma py_strip_closing: "c \<notin> set s \<Longrightarrow> py_strip c (s @ [c]) = s"
proof (cases s)
  case Nil
  then show ?thesis by (simp add: py_strip_def)
next
  case (Cons x xs)
  assume notin: "c \<notin> set s"
  then have "dropWhile (\<lambda>x. x = c) (s @ [c]) = s @ [c]"
    using Cons by auto
  moreover from notin have "dropWhile (\<lambda>x. x = c) (rev s) = rev s"
    by (cases "rev s") auto
  ultimately show ?thesis by (simp add: py_strip_def)
qed

lemma repr_plain: "plain_name s \<Longrightarrow> concat (map (repr_byte (CHR 0x27)) s) = s"
  by (induction s) (auto simp add: plain_name_def repr_byte_def)

lemma plain_name_chars:
  "plain_name s \<Longrightarrow> CHR ''/'' \<notin> set s \<and> CHR 0x27 \<notin> set s"
  by (auto simp add: plain_name_def list_all_iff)

lemma key_wo_species_path:
  assumes "CHR 0x27 \<notin> set sp" and "plain_name nm"
  shows "key_wo_species (str_encode (join_path sp nm)) = nm"
proof -
  let ?q = "CHR 0x27"
  from assms plain_name_chars [of nm] have q: "?q \<notin> set (sp @ ''/'' @ nm)"
    by simp
  have repr: "bytes_repr (sp @ ''/'' @ nm)
          = (CHR ''b'' # ?q # concat (map (repr_byte ?q) sp)) @ CHR ''/'' # (nm @ [?q])"
    using q by (simp add: bytes_repr_def Let_def repr_plain [OF assms(2)] repr_byte_def)
  have "CHR ''/'' \<notin> set (nm @ [?q])"
    using plain_name_chars [OF assms(2)] by simp
  from py_split_last [OF this, of "CHR ''b'' # ?q # concat (map (repr_byte ?q) sp)"]
  have "last (py_split (CHR ''/'') (bytes_repr (sp @ ''/'' @ nm))) = nm @ [?q]"
    unfolding repr .
  then show ?thesis
    using plain_name_chars [OF assms(2)]
    by (simp add: key_wo_species_def str_encode_def join_path_def py_strip_closing)
qed

lemma key_wo_species_data_size:
  "key_wo_species (str_encode ''data_size'') = CHR ''b'' # CHR 0x27 # ''data_size''"
  by code_simp


lemma update_fresh: "k \<notin> fst ` set al \<Longrightarrow> AList.update k v al = al @ [(k, v)]"
  by (induction al) auto

lemma fold_update_fresh:
  assumes "distinct (map f ps)" and "f ` set ps \<inter> fst ` set acc = {}"
  shows "fold (\<lambda>p. AList.update (f p) (g p)) ps acc = acc @ map (\<lambda>p. (f p, g p)) ps"
  using assms
proof (induction ps arbitrary: acc)
  case Nil
  then show ?case by simp
next
  case (Cons p ps)
  from Cons.prems have fresh: "f p \<notin> fst ` set acc" by auto
  have "f ` set ps \<inter> fst ` set (acc @ [(f p, g p)]) = {}"
    using Cons.prems by auto
  with Cons.IH [of "acc @ [(f p, g p)]"] Cons.prems(1)
  show ?case by (simp add: update_fresh [OF fresh])
qed

lemma join_path_inj: "join_path sp a = join_path sp b \<Longrightarrow> a = b"
  by (simp add: join_path_def)

lemma type_spec_keys_distinct:
  assumes "distinct (map name (input_properties self))"
  shows "type_spec_keys self sp = map (\<lambda>p. join_path sp (name p)) (input_properties self)"
proof -
  have "distinct (map (\<lambda>p. str_encode (join_path sp (name p))) (input_properties self))"
    using assms by (simp add: distinct_map inj_on_def str_encode_def join_path_def)
  from fold_update_fresh [OF this, of "[]" n_dims]
  show ?thesis by (simp add: type_spec_keys_def str_encode_def comp_def)
qed

lemma read_paths_keys: "read_paths st ps start len = Inr d \<Longrightarrow> map fst d = ps"
  by (induction ps arbitrary: d) (auto split: sum.splits)

lemma read_batch_keys:
  "read_batch st ps rng = Inr batch \<Longrightarrow> map fst batch = ps @ [str_encode ''data_size'']"
  by (auto simp add: read_batch_def read_paths_keys split: prod.splits sum.splits)

lemma batch_dict_wo_species_distinct:
  assumes "distinct (map (\<lambda>kv. key_wo_species (fst kv)) batch)"
  shows "batch_dict_wo_species batch = map (\<lambda>kv. (key_wo_species (fst kv), snd kv)) batch"
  using fold_update_fresh [OF assms, of "[]" snd]
  by (simp add: batch_dict_wo_species_def case_prod_unfold)

text \<open>
  Claim C8 does not hold as stated. Every batch carries its number of configurations
  under the bytes key \<^verbatim>\<open>data_size\<close>, whose \<^verbatim>\<open>str\<close> has no slash and begins with the letter
  b: the strip takes the closing quote only, and the key the transform sees is
  \<^verbatim>\<open>b'data_size\<close>, which is no property name. Here the transform raises with the keys it
  was given.
\<close>

theorem data_size_key_reaches_transform:
  "fst (transform_species (momentum None) salt 2 report_keys ''Na''
          (initial_state positions_store))
     = Inl (KeyError (''Positions,b'' @ [CHR 0x27] @ ''data_size,''))"
  by code_simp

text \<open>
  Claim C8 as amended. Let the species name hold no single quote and the names of the
  input properties be distinct and plain (printable ASCII without slash, single quote
  and backslash). A batch read for the species has the keys \<^verbatim>\<open><species>/<property>\<close> of
  the input properties, then \<^verbatim>\<open>data_size\<close>. The dictionary given to the transform has, in
  the same order and with the same values, the bare property names, then the key
  \<^verbatim>\<open>b'data_size\<close>.
\<close>

theorem species_stripped_from_keys:
  assumes quote: "CHR 0x27 \<notin> set sp"
      and plain: "\<forall>p \<in> set (input_properties self). plain_name (name p)"
      and dist: "distinct (map name (input_properties self))"
      and read: "read_batch st (type_spec_keys self sp) rng = Inr batch"
  shows "map fst batch
           = map (\<lambda>p. join_path sp (name p)) (input_properties self)
             @ [str_encode ''data_size'']
       \<and> map fst (batch_dict_wo_species batch)
           = map name (input_properties self) @ [CHR ''b'' # CHR 0x27 # ''data_size'']
       \<and> map snd (batch_dict_wo_species batch) = map snd batch"
proof -
  let ?props = "input_properties self"
  let ?ds = "CHR ''b'' # CHR 0x27 # ''data_size''"
  have keys: "map fst batch = map (\<lambda>p. join_path sp (name p)) ?props @ [str_encode ''data_size'']"
    using read_batch_keys [OF read] type_spec_keys_distinct [OF dist] by simp
  have each: "map key_wo_species (map (\<lambda>p. join_path sp (name p)) ?props) = map name ?props"
    using plain key_wo_species_path [OF quote] by (simp add: str_encode_def)
  have stripped: "map (\<lambda>kv. key_wo_species (fst kv)) batch = map name ?props @ [?ds]"
  proof -
    have "map (\<lambda>kv. key_wo_species (fst kv)) batch = map key_wo_species (map fst batch)"
      by simp
    also have "\<dots> = map name ?props @ [?ds]"
      unfolding keys using each key_wo_species_data_size by simp
    finally show ?thesis .
  qed
  have "?ds \<notin> set (map name ?props)"
  proof
    assume "?ds \<in> set (map name ?props)"
    then obtain p where "p \<in> set ?props" "name p = ?ds" by auto
    with plain have "plain_name ?ds" by auto
    then show False by (simp add: plain_name_def)
  qed
  with dist have "distinct (map (\<lambda>kv. key_wo_species (fst kv)) batch)"
    unfolding stripped by simp
  from batch_dict_wo_species_distinct [OF this]
  have wo: "batch_dict_wo_species batch = map (\<lambda>kv. (key_wo_species (fst kv), snd kv)) batch" .
  have "map fst (batch_dict_wo_species batch) = map name ?props @ [?ds]"
    unfolding wo using stripped by (simp add: comp_def)
  moreover have "map snd (batch_dict_wo_species batch) = map snd batch"
    unfolding wo by (simp add: comp_def)
  ultimately show ?thesis using keys by simp
qed

text \<open>The theorem for the species \<^verbatim>\<open>Na\<close> of the example and its first batch.\<close>

theorem species_stripped_from_keys_witness:
  "\<exists>batch. read_batch (initial_state positions_store)
              (type_spec_keys (momentum None) ''Na'') (0, 2) = Inr batch
         \<and> map fst batch = [''Na/Positions'', ''data_size'']
         \<and> map fst (batch_dict_wo_species batch)
             = [''Positions'', CHR ''b'' # CHR 0x27 # ''data_size'']"
proof -
  have "\<exists>batch. read_batch (initial_state positions_store)
                  (type_spec_keys (momentum None) ''Na'') (0, 2) = Inr batch"
    by (simp add: read_batch_def type_spec_keys_def momentum_def join_path_def str_encode_def
                  read_range_def initial_state_def positions_store_def ramp_def)
  then obtain batch where
    read: "read_batch (initial_state positions_store)
             (type_spec_keys (momentum None) ''Na'') (0, 2) = Inr batch"
    by blast
  have quote: "CHR 0x27 \<notin> set ''Na''"
    by simp
  have plain: "\<forall>p \<in> set (input_properties (momentum None)). plain_name (name p)"
    by (simp add: momentum_def plain_name_def)
  have dist: "distinct (map name (input_properties (momentum None)))"
    by (simp add: momentum_def)
  from species_stripped_from_keys [OF quote plain dist read] read
  show ?thesis
    by (simp add: momentum_def join_path_def str_encode_def)
qed

text \<open>
  The condition on the species name is needed: the \<^verbatim>\<open>str\<close> of a key with a single quote
  and no double quote is written in double quotes, and the closing one stays.
\<close>

lemma quoted_species_key:
  "key_wo_species (str_encode (join_path [CHR ''O'', CHR 0x27] ''Positions''))
     = ''Positions'' @ [CHR 0x22]"
  by code_simp


end
